theory Spec2Isabelle
  imports
    Complex_Main
    "HOL-Library.Word"
    "HOL-Library.Multiset"
    "HOL-Library.Char_ord"
    "HOL-Library.List_Lexorder"
    "HOL-Library.Product_Lexorder"
begin

section \<open>The Ogre engine of Thrive: data model\<close>

text \<open>
  The development embeds \<^verbatim>\<open>src/ogre/ogre_engine.cpp\<close>: the class \<^verbatim>\<open>OgreEngine\<close>, its
  private \<^verbatim>\<open>Implementation\<close> and the three lifecycle methods \<^verbatim>\<open>init\<close>, \<^verbatim>\<open>update\<close>
  and \<^verbatim>\<open>shutdown\<close>. The code is almost entirely a sequence of calls into Ogre, OIS, the
  \<^verbatim>\<open>Game\<close> singleton and the base class \<^verbatim>\<open>Engine\<close>, so the state carries a log of those
  calls, in the order in which the code makes them, next to the member variables.
\<close>

subsection \<open>Pointers and objects\<close>

text \<open>A C++ pointer is either \<^verbatim>\<open>nullptr\<close> or the address of an object.\<close>

datatype ptr = Null | Addr nat

text \<open>The ten classes of System that \<^verbatim>\<open>init\<close> hands to \<^verbatim>\<open>addSystem\<close>.\<close>

datatype system_class =
    KeyboardSystem
  | OgreAddSceneNodeSystem
  | OgreUpdateSceneNodeSystem
  | OgreCameraSystem
  | OgreLightSystem
  | SkySystem
  | OgreEntitySystem
  | OgreViewportSystem
  | OgreRemoveSceneNodeSystem
  | RenderSystem

text \<open>A \<^verbatim>\<open>std::shared_ptr<System>\<close>: the dynamic class of the object and its address.\<close>

type_synonym system = "system_class \<times> ptr"

text \<open>
  \<^verbatim>\<open>int milliSeconds\<close>, the argument of \<^verbatim>\<open>update\<close>: a 32-bit word, read as a signed
  number by \<open>sint\<close>.
\<close>

type_synonym millis = "32 word"

subsection \<open>Calls that leave the engine\<close>

datatype call =
    NewLogManager ptr
  | CreateLog string bool bool bool
  | NewRoot ptr string
  | DeleteRoot ptr
  | ConfigFileLoad string
  | AddResourceLocation string string string
  | RestoreConfig ptr
  | ShowConfigDialog ptr
  | RootInitialise ptr bool string
  | AddWindowEventListener ptr ptr
  | SetDefaultNumMipmaps nat
  | InitialiseAllResourceGroups
  | CreateSceneManager ptr string
  | SetAmbientLight ptr rat rat rat
  | GetCustomAttribute ptr string
  | CreateInputSystem "(string \<times> string) list"
  | DestroyInputSystem ptr
  | WindowDestroy ptr
  | MessagePump
  | GameQuit
  | NewSystem system
  | AddSystem system
  | SystemInit system
  | SystemUpdate system millis
  | SystemShutdown system

text \<open>
  \<^verbatim>\<open>AddResourceLocation location type section\<close> has the argument order of
  \<^verbatim>\<open>resourceManager.addResourceLocation(resourceLocation, resourceType, sectionName)\<close>.
  \<open>NewSystem\<close> is the construction of a System object, by \<^verbatim>\<open>new T()\<close> or
  \<^verbatim>\<open>std::make_shared<T>()\<close>: the call of the constructor of its class.
\<close>

subsection \<open>State\<close>

datatype lifecycle_state = Uninitialized | Initialized | Running | ShutDown

text \<open>
  The fields \<open>m_root\<close> to \<open>m_window\<close> are the members of \<^verbatim>\<open>Implementation\<close>, and
  \<open>m_impl\<close> is the address of that object. \<open>logManager\<close> is the function-local static
  of \<^verbatim>\<open>setupLog\<close>, \<open>next_free\<close> the next address \<^verbatim>\<open>new\<close> hands out, \<open>calls\<close>
  the log of calls made so far. \<open>systems\<close> and \<open>lifecycle\<close> belong to the base class
  \<^verbatim>\<open>Engine\<close> and \<open>quit_requested\<close> to \<^verbatim>\<open>Game\<close>; both classes are described below.
\<close>

record world =
  m_impl :: ptr
  m_root :: ptr
  m_inputManager :: ptr
  m_keyboardSystem :: ptr
  m_sceneManager :: ptr
  m_viewportSystem :: ptr
  m_window :: ptr
  systems :: "system list"
  lifecycle :: lifecycle_state
  quit_requested :: bool
  logManager :: ptr
  next_free :: nat
  calls :: "call list"

text \<open>
  What the surroundings answer during one call of a lifecycle method: the build flavour
  (\<^verbatim>\<open>_DEBUG\<close>), the settings of the resource manifest in the order of the file, each as
  (section, type, location), the results of \<^verbatim>\<open>restoreConfig\<close> and \<^verbatim>\<open>showConfigDialog\<close>,
  the objects that Ogre and OIS create (both libraries report a failure by throwing, never
  by a null result; their exceptions are outside this development), and the value that
  \<^verbatim>\<open>getCustomAttribute\<close> stores in \<^verbatim>\<open>windowHandle\<close>.
\<close>

record env =
  debug_build :: bool
  resources_file :: "(string \<times> string \<times> string) list"
  restoreConfig_result :: bool
  showConfigDialog_result :: bool
  auto_window :: nat
  scene_manager :: nat
  window_handle :: nat
  input_system :: nat
  shutdown_reversed :: bool

text \<open>
  A method either returns, or the process stops in the state reached: \<^verbatim>\<open>exit\<close> with a
  status, a member call through a null pointer, or a lifecycle call that the base class
  rejects.
\<close>

datatype stop = ProcessExit int | NullDereference | LifecycleViolation

type_synonym outcome = "(stop \<times> world) + world"

definition state_of :: "outcome \<Rightarrow> world" where
  "state_of r = (case r of Inl (e, s) \<Rightarrow> s | Inr s \<Rightarrow> s)"

definition ok :: "(world \<Rightarrow> world) \<Rightarrow> world \<Rightarrow> outcome" where
  "ok f s = Inr (f s)"

text \<open>Statements in sequence: the first one that stops ends the method.\<close>

fun run_steps :: "(world \<Rightarrow> outcome) list \<Rightarrow> world \<Rightarrow> outcome" where
  "run_steps [] s = Inr s"
| "run_steps (f # fs) s = (case f s of Inl e \<Rightarrow> Inl e | Inr s' \<Rightarrow> run_steps fs s')"

definition emit :: "call \<Rightarrow> world \<Rightarrow> world" where
  "emit c s = s\<lparr>calls := calls s @ [c]\<rparr>"

definition emit_all :: "call list \<Rightarrow> world \<Rightarrow> world" where
  "emit_all cs s = s\<lparr>calls := calls s @ cs\<rparr>"

text \<open>\<open>p->f(...)\<close>: a member call through \<open>p\<close>, which must not be null.\<close>

definition deref :: "(world \<Rightarrow> ptr) \<Rightarrow> (world \<Rightarrow> outcome) \<Rightarrow> world \<Rightarrow> outcome" where
  "deref p f s = (if p s = Null then Inl (NullDereference, s) else f s)"

text \<open>\<^verbatim>\<open>new T()\<close> and \<^verbatim>\<open>std::make_shared<T>()\<close>: a fresh, non-null address.\<close>

definition new :: "world \<Rightarrow> ptr \<times> world" where
  "new s = (Addr (next_free s), s\<lparr>next_free := Suc (next_free s)\<rparr>)"

text \<open>The calls that \<open>s'\<close> has logged beyond those of \<open>s\<close>.\<close>

definition new_calls :: "world \<Rightarrow> world \<Rightarrow> call list" where
  "new_calls s s' = drop (length (calls s)) (calls s')"

subsection \<open>Constants of the file\<close>

definition RESOURCES_CFG :: "env \<Rightarrow> string" where
  "RESOURCES_CFG env = (if debug_build env then ''resources_d.cfg'' else ''resources.cfg'')"

definition PLUGINS_CFG :: "env \<Rightarrow> string" where
  "PLUGINS_CFG env = (if debug_build env then ''plugins_d.cfg'' else ''plugins.cfg'')"

definition EXIT_SUCCESS :: int where
  "EXIT_SUCCESS = 0"

section \<open>Collaborators that are not part of the file\<close>

subsection \<open>The base class Engine\<close>

text \<open>
  Modelled from the spec: \<^verbatim>\<open>Engine::addSystem\<close>, whose definition is not among the
  sources. The Engine owns "the ordered sequence of Systems"; Systems are
  "added once, in a fixed order, before the engine starts running", and "a System added
  after \<^verbatim>\<open>init()\<close> has been called is never invoked (registration is closed once running
  starts)".
\<close>

definition Engine_addSystem :: "system \<Rightarrow> world \<Rightarrow> world" where
  "Engine_addSystem sys s =
     emit (AddSystem sys)
       (if lifecycle s = Uninitialized then s\<lparr>systems := systems s @ [sys]\<rparr> else s)"

text \<open>
  Modelled from the spec: \<^verbatim>\<open>Engine::init\<close>, not among the sources. "\<^verbatim>\<open>init()\<close>: valid
  only from Uninitialized", it "calls \<^verbatim>\<open>init()\<close> on each System in that order" and
  "transitions to Initialized"; "calling any lifecycle method out of order is a programming
  error (fatal, not recoverable)".
\<close>

definition Engine_init :: "world \<Rightarrow> outcome" where
  "Engine_init s =
     (if lifecycle s = Uninitialized
      then Inr ((emit_all (map SystemInit (systems s)) s)\<lparr>lifecycle := Initialized\<rparr>)
      else Inl (LifecycleViolation, s))"

text \<open>
  Modelled from the spec: \<^verbatim>\<open>Engine::update\<close>, not among the sources. "\<^verbatim>\<open>update(dt)\<close>:
  valid only from Initialized/Running", it "invokes every System's update(dt) in
  registration order" and "transitions to Running".
\<close>

definition Engine_update :: "millis \<Rightarrow> world \<Rightarrow> outcome" where
  "Engine_update milliSeconds s =
     (if lifecycle s = Initialized \<or> lifecycle s = Running
      then Inr ((emit_all (map (\<lambda>sys. SystemUpdate sys milliSeconds) (systems s)) s)
                  \<lparr>lifecycle := Running\<rparr>)
      else Inl (LifecycleViolation, s))"

text \<open>
  Modelled from the spec: \<^verbatim>\<open>Engine::shutdown\<close>, not among the sources. "\<^verbatim>\<open>shutdown()\<close>:
  valid only from Running/Initialized", it "calls each System's shutdown in reverse or
  matching order" (which of the two is left open, so it is the parameter
  \<open>shutdown_reversed\<close>) and "transitions to ShutDown".
\<close>

definition Engine_shutdown :: "env \<Rightarrow> world \<Rightarrow> outcome" where
  "Engine_shutdown env s =
     (if lifecycle s = Initialized \<or> lifecycle s = Running
      then Inr ((emit_all (map SystemShutdown
                    (if shutdown_reversed env then rev (systems s) else systems s)) s)
                  \<lparr>lifecycle := ShutDown\<rparr>)
      else Inl (LifecycleViolation, s))"

subsection \<open>The Game singleton\<close>

text \<open>
  Modelled from the spec: \<^verbatim>\<open>Game::quit\<close>, declared in \<^verbatim>\<open>game.h\<close> and not among the
  sources. The close listener "signals process-level quit"; a window-close event "sets a
  process-wide quit flag observed by the caller driving the update loop".
\<close>

definition Game_quit :: "world \<Rightarrow> world" where
  "Game_quit s = emit GameQuit (s\<lparr>quit_requested := True\<rparr>)"

subsection \<open>Ogre::ConfigFile\<close>

text \<open>
  \<^verbatim>\<open>loadResources\<close> reads the manifest through \<^verbatim>\<open>Ogre::ConfigFile\<close>. The source names
  the two containers it walks: the sections come from \<^verbatim>\<open>getSectionIterator()\<close>, an
  iterator over a keyed map (\<^verbatim>\<open>peekNextKey\<close> is the section name), and every section
  is a \<^verbatim>\<open>SettingsMultiMap\<close>, a \<^verbatim>\<open>std::multimap\<close> from the setting's name to its value.
  Both are ordered containers of the standard library: they are walked in ascending key
  order (strings compare bytewise, lexicographically), and a multimap keeps entries
  with equal keys in the order of their insertion. A container is represented by the
  list of its entries in iteration order.
\<close>

type_synonym SettingsMultiMap = "(string \<times> string) list"

type_synonym SettingsBySection = "(string \<times> SettingsMultiMap) list"

fun multimap_insert :: "string \<times> string \<Rightarrow> SettingsMultiMap \<Rightarrow> SettingsMultiMap" where
  "multimap_insert kv [] = [kv]"
| "multimap_insert kv (x # xs) =
     (if fst kv < fst x then kv # x # xs else x # multimap_insert kv xs)"

fun section_insert ::
  "string \<Rightarrow> string \<times> string \<Rightarrow> SettingsBySection \<Rightarrow> SettingsBySection" where
  "section_insert sec kv [] = [(sec, [kv])]"
| "section_insert sec kv ((name, content) # rest) =
     (if sec = name then (name, multimap_insert kv content) # rest
      else if sec < name then (sec, [kv]) # (name, content) # rest
      else (name, content) # section_insert sec kv rest)"

text \<open>
  \<^verbatim>\<open>ConfigFile::load\<close>: the loader starts with the unnamed section, which holds the
  settings written before the first section header, and files every setting under its
  section.
\<close>

definition ConfigFile_load :: "(string \<times> string \<times> string) list \<Rightarrow> SettingsBySection" where
  "ConfigFile_load file =
     foldl (\<lambda>m (sec, ty, loc). section_insert sec (ty, loc) m) [([], [])] file"

subsection \<open>boost::lexical_cast\<close>

text \<open>\<^verbatim>\<open>boost::lexical_cast<std::string>\<close> of a \<^verbatim>\<open>size_t\<close>: its decimal digits.\<close>

definition digit :: "nat \<Rightarrow> char" where
  "digit d = ''0123456789'' ! d"

fun lexical_cast :: "nat \<Rightarrow> string" where
  "lexical_cast n =
     (if n < 10 then [digit n] else lexical_cast (n div 10) @ [digit (n mod 10)])"

declare lexical_cast.simps [simp del]

section \<open>OgreEngine::Implementation\<close>

text \<open>
  \<^verbatim>\<open>new Implementation()\<close> from the constructor of \<^verbatim>\<open>OgreEngine\<close>, in a process that has
  made no call yet and whose next free address is \<open>a\<close>. The constructor creates the
  keyboard and the viewport system, in the order of the member initialisers; the other
  members take their default initialisers.
  The entity manager that the constructor of \<^verbatim>\<open>OgreEngine\<close> passes on to \<^verbatim>\<open>Engine\<close> is
  not used in this file and is left out, and so is the destructor of
  \<^verbatim>\<open>Implementation\<close>, which no lifecycle method calls.
\<close>

definition OgreEngine :: "nat \<Rightarrow> world" where
  "OgreEngine a =
     \<lparr>m_impl = Addr a,
      m_root = Null,
      m_inputManager = Null,
      m_keyboardSystem = Addr (a + 1),
      m_sceneManager = Null,
      m_viewportSystem = Addr (a + 2),
      m_window = Null,
      systems = [],
      lifecycle = Uninitialized,
      quit_requested = False,
      logManager = Null,
      next_free = a + 3,
      calls =
        [NewSystem (KeyboardSystem, Addr (a + 1)),
         NewSystem (OgreViewportSystem, Addr (a + 2))]\<rparr>"

definition loadConfig :: "env \<Rightarrow> world \<Rightarrow> outcome" where
  "loadConfig env =
     deref m_root (\<lambda>s.
       let s1 = emit (RestoreConfig (m_root s)) s in
       if restoreConfig_result env then Inr s1
       else
         let s2 = emit (ShowConfigDialog (m_root s1)) s1 in
         if showConfigDialog_result env then Inr s2
         else Inl (ProcessExit EXIT_SUCCESS, s2))"

text \<open>The inner loop of \<^verbatim>\<open>loadResources\<close>, over the settings of one section.\<close>

fun add_settings :: "string \<Rightarrow> SettingsMultiMap \<Rightarrow> world \<Rightarrow> world" where
  "add_settings sectionName [] s = s"
| "add_settings sectionName (setting # rest) s =
     (let resourceType = fst setting;
          resourceLocation = snd setting
      in add_settings sectionName rest
           (emit (AddResourceLocation resourceLocation resourceType sectionName) s))"

text \<open>The outer loop, over the sections.\<close>

fun add_sections :: "SettingsBySection \<Rightarrow> world \<Rightarrow> world" where
  "add_sections [] s = s"
| "add_sections ((sectionName, sectionContent) # sections) s =
     add_sections sections (add_settings sectionName sectionContent s)"

definition loadResources :: "env \<Rightarrow> world \<Rightarrow> world" where
  "loadResources env s =
     add_sections (ConfigFile_load (resources_file env))
       (emit (ConfigFileLoad (RESOURCES_CFG env)) s)"

definition setupInputManager :: "env \<Rightarrow> world \<Rightarrow> outcome" where
  "setupInputManager env =
     deref m_window (\<lambda>s.
       let HANDLE_NAME = ''WINDOW'';
           s1 = emit (GetCustomAttribute (m_window s) HANDLE_NAME) s;
           windowHandle = window_handle env;
           parameters = [(HANDLE_NAME, lexical_cast windowHandle)];
           s2 = emit (CreateInputSystem parameters) s1
       in Inr (s2\<lparr>m_inputManager := Addr (input_system env)\<rparr>))"

definition setupLighting :: "world \<Rightarrow> outcome" where
  "setupLighting =
     deref m_sceneManager (\<lambda>s.
       Inr (emit (SetAmbientLight (m_sceneManager s) (1 / 2) (1 / 2) (1 / 2)) s))"

text \<open>The log manager is a function-local static: it is created by the first call only.\<close>

definition setupLog :: "world \<Rightarrow> world" where
  "setupLog s =
     (let s1 = (if logManager s = Null
                then (let (p, s') = new s in emit (NewLogManager p) (s'\<lparr>logManager := p\<rparr>))
                else s)
      in emit (CreateLog ''default'' True False False) s1)"

definition setupSceneManager :: "env \<Rightarrow> world \<Rightarrow> outcome" where
  "setupSceneManager env =
     deref m_root (\<lambda>s.
       Inr ((emit (CreateSceneManager (m_root s) ''DefaultSceneManager'') s)
              \<lparr>m_sceneManager := Addr (scene_manager env)\<rparr>))"

definition shutdownInputManager :: "world \<Rightarrow> world" where
  "shutdownInputManager s =
     (if m_inputManager s = Null then s
      else (emit (DestroyInputSystem (m_inputManager s)) s)\<lparr>m_inputManager := Null\<rparr>)"

text \<open>The listener callback: the value returned and the state after it.\<close>

definition windowClosing :: "ptr \<Rightarrow> world \<Rightarrow> bool \<times> world" where
  "windowClosing window s = (True, if window = m_window s then Game_quit s else s)"

section \<open>OgreEngine\<close>

text \<open>
  \<^verbatim>\<open>m_root.reset(p)\<close> of the \<^verbatim>\<open>std::unique_ptr\<close>: the old object, if there is one, is
  deleted after the new pointer is stored.
\<close>

definition m_root_reset :: "ptr \<Rightarrow> world \<Rightarrow> world" where
  "m_root_reset p s =
     (let old = m_root s; s1 = s\<lparr>m_root := p\<rparr>
      in if old = Null then s1 else emit (DeleteRoot old) s1)"

text \<open>\<^verbatim>\<open>m_impl->m_root.reset(new Ogre::Root(PLUGINS_CFG))\<close>\<close>

definition new_Root :: "env \<Rightarrow> world \<Rightarrow> world" where
  "new_Root env s =
     (let (p, s1) = new s in m_root_reset p (emit (NewRoot p (PLUGINS_CFG env)) s1))"

text \<open>\<^verbatim>\<open>m_impl->m_window = m_impl->m_root->initialise(true, "Thrive")\<close>\<close>

definition root_initialise :: "env \<Rightarrow> world \<Rightarrow> outcome" where
  "root_initialise env =
     deref m_root (\<lambda>s.
       Inr ((emit (RootInitialise (m_root s) True ''Thrive'') s)
              \<lparr>m_window := Addr (auto_window env)\<rparr>))"

definition addWindowEventListener :: "world \<Rightarrow> world" where
  "addWindowEventListener s = emit (AddWindowEventListener (m_window s) (m_impl s)) s"

text \<open>
  \<^verbatim>\<open>this->addSystem(std::make_shared<T>())\<close>: the argument is evaluated first, so the
  System is constructed and then registered.
\<close>

definition addSystem_make_shared :: "system_class \<Rightarrow> world \<Rightarrow> world" where
  "addSystem_make_shared T s =
     (let (p, s1) = new s;
          s2 = emit (NewSystem (T, p)) s1
      in Engine_addSystem (T, p) s2)"

text \<open>The statements of \<^verbatim>\<open>OgreEngine::init\<close> before its last one, in the order written.\<close>

definition init_setup :: "env \<Rightarrow> (world \<Rightarrow> outcome) list" where
  "init_setup env =
     [ok setupLog,
      ok (new_Root env),
      ok (loadResources env),
      loadConfig env,
      root_initialise env,
      ok addWindowEventListener,
      ok (emit (SetDefaultNumMipmaps 5)),
      ok (emit InitialiseAllResourceGroups),
      setupSceneManager env,
      setupLighting,
      setupInputManager env,
      ok (\<lambda>s. Engine_addSystem (KeyboardSystem, m_keyboardSystem s) s),
      ok (addSystem_make_shared OgreAddSceneNodeSystem),
      ok (addSystem_make_shared OgreUpdateSceneNodeSystem),
      ok (addSystem_make_shared OgreCameraSystem),
      ok (addSystem_make_shared OgreLightSystem),
      ok (addSystem_make_shared SkySystem),
      ok (addSystem_make_shared OgreEntitySystem),
      ok (\<lambda>s. Engine_addSystem (OgreViewportSystem, m_viewportSystem s) s),
      ok (addSystem_make_shared OgreRemoveSceneNodeSystem),
      ok (addSystem_make_shared RenderSystem)]"

text \<open>\<^verbatim>\<open>OgreEngine::init\<close>: those statements, then \<^verbatim>\<open>Engine::init()\<close>.\<close>

definition init :: "env \<Rightarrow> world \<Rightarrow> outcome" where
  "init env = run_steps (init_setup env @ [Engine_init])"

definition inputManager :: "world \<Rightarrow> ptr" where
  "inputManager s = m_inputManager s"

definition keyboardSystem :: "world \<Rightarrow> ptr" where
  "keyboardSystem s = m_keyboardSystem s"

text \<open>\<^verbatim>\<open>root()\<close>; the name \<open>root\<close> is taken by the library.\<close>

definition root_accessor :: "world \<Rightarrow> ptr" where
  "root_accessor s = m_root s"

definition sceneManager :: "world \<Rightarrow> ptr" where
  "sceneManager s = m_sceneManager s"

definition shutdown :: "env \<Rightarrow> world \<Rightarrow> outcome" where
  "shutdown env =
     run_steps
       [Engine_shutdown env,
        ok shutdownInputManager,
        deref m_window (\<lambda>s. Inr (emit (WindowDestroy (m_window s)) s)),
        ok (m_root_reset Null)]"

text \<open>
  \<^verbatim>\<open>Ogre::WindowEventUtilities::messagePump()\<close> hands the pending window events to the
  registered listeners. \<open>pending\<close> lists the windows whose close request the pump
  delivers to this engine's listener during the call, in the order of delivery; the
  listener overrides no other callback.
\<close>

fun deliver :: "ptr list \<Rightarrow> world \<Rightarrow> world" where
  "deliver [] s = s"
| "deliver (window # rest) s = deliver rest (snd (windowClosing window s))"

definition messagePump :: "ptr list \<Rightarrow> world \<Rightarrow> world" where
  "messagePump pending s = deliver pending (emit MessagePump s)"

definition update :: "millis \<Rightarrow> ptr list \<Rightarrow> world \<Rightarrow> outcome" where
  "update milliSeconds pending =
     run_steps
       [ok (messagePump pending),
        Engine_update milliSeconds]"

text \<open>\<^verbatim>\<open>viewportSystem()\<close> returns a reference: the object \<open>m_viewportSystem\<close> points to.\<close>

definition viewportSystem :: "world \<Rightarrow> ptr" where
  "viewportSystem s = m_viewportSystem s"

definition window :: "world \<Rightarrow> ptr" where
  "window s = m_window s"

section \<open>Reading the log of calls\<close>

text \<open>The Systems handed to \<^verbatim>\<open>addSystem\<close>, in the order of the calls.\<close>

fun added_systems :: "call list \<Rightarrow> system list" where
  "added_systems [] = []"
| "added_systems (AddSystem sys # cs) = sys # added_systems cs"
| "added_systems (c # cs) = added_systems cs"

text \<open>The Systems constructed, in the order of their construction.\<close>

fun constructed_systems :: "call list \<Rightarrow> system list" where
  "constructed_systems [] = []"
| "constructed_systems (NewSystem sys # cs) = sys # constructed_systems cs"
| "constructed_systems (c # cs) = constructed_systems cs"

text \<open>The calls of a System's \<^verbatim>\<open>update\<close>, each with its argument, in the order made.\<close>

fun system_updates :: "call list \<Rightarrow> (system \<times> millis) list" where
  "system_updates [] = []"
| "system_updates (SystemUpdate sys dt # cs) = (sys, dt) # system_updates cs"
| "system_updates (c # cs) = system_updates cs"

text \<open>
  The search-path entries given to \<^verbatim>\<open>addResourceLocation\<close>, each as
  (location, type, section), in the order of the calls.
\<close>

fun registered_locations :: "call list \<Rightarrow> (string \<times> string \<times> string) list" where
  "registered_locations [] = []"
| "registered_locations (AddResourceLocation loc ty sec # cs) =
     (loc, ty, sec) # registered_locations cs"
| "registered_locations (c # cs) = registered_locations cs"

text \<open>\<open>a\<close> occurs in \<open>xs\<close>, and \<open>b\<close> occurs after its first occurrence.\<close>

definition before :: "'a \<Rightarrow> 'a \<Rightarrow> 'a list \<Rightarrow> bool" where
  "before a b xs = (b \<in> set (drop 1 (dropWhile (\<lambda>x. x \<noteq> a) xs)))"

text \<open>
  The entries of a loaded manifest in the order in which the two loops of
  \<^verbatim>\<open>loadResources\<close> meet them, as (location, type, section).
\<close>

definition registrations :: "SettingsBySection \<Rightarrow> (string \<times> string \<times> string) list" where
  "registrations m =
     concat (map (\<lambda>(sec, content). map (\<lambda>(ty, loc). (loc, ty, sec)) content) m)"

definition resource_calls :: "SettingsBySection \<Rightarrow> call list" where
  "resource_calls m =
     map (\<lambda>(loc, ty, sec). AddResourceLocation loc ty sec) (registrations m)"

text \<open>
  The entries of the manifest file in the order in which they appear in the file, as
  (location, type, section).
\<close>

definition entries_in_file_order ::
  "(string \<times> string \<times> string) list \<Rightarrow> (string \<times> string \<times> string) list" where
  "entries_in_file_order file = map (\<lambda>(sec, ty, loc). (loc, ty, sec)) file"

text \<open>The key by which the loaded configuration is walked: section name, then type.\<close>

definition by_section_and_type :: "string \<times> string \<times> string \<Rightarrow> string \<times> string" where
  "by_section_and_type e = (case e of (loc, ty, sec) \<Rightarrow> (sec, ty))"

text \<open>The entries of one section, as (location, type, section).\<close>

definition section_entries ::
  "string \<Rightarrow> SettingsMultiMap \<Rightarrow> (string \<times> string \<times> string) list" where
  "section_entries sec content = map (\<lambda>(ty, loc). (loc, ty, sec)) content"

text \<open>
  The representation invariant of a loaded configuration: section names ascend and do
  not repeat, and the keys of every section ascend.
\<close>

definition well_ordered :: "SettingsBySection \<Rightarrow> bool" where
  "well_ordered m =
     (sorted (map fst m) \<and> distinct (map fst m)
      \<and> (\<forall>(sec, content) \<in> set m. sorted (map fst content)))"

text \<open>One \<^verbatim>\<open>Game::quit\<close> for every delivered close request that names the window \<open>w\<close>.\<close>

definition quit_calls :: "ptr list \<Rightarrow> ptr \<Rightarrow> call list" where
  "quit_calls pending w = map (\<lambda>p. GameQuit) (filter (\<lambda>p. p = w) pending)"

section \<open>The life of an engine\<close>

datatype operation =
    Init env
  | Update millis "ptr list"
  | Shutdown env
  | WindowClosing ptr

fun is_Init :: "operation \<Rightarrow> bool" where
  "is_Init (Init env) = True"
| "is_Init other = False"

fun perform :: "operation \<Rightarrow> world \<Rightarrow> outcome" where
  "perform (Init env) s = init env s"
| "perform (Update milliSeconds pending) s = update milliSeconds pending s"
| "perform (Shutdown env) s = shutdown env s"
| "perform (WindowClosing w) s = Inr (snd (windowClosing w s))"

text \<open>A sequence of calls on one engine; it ends where the process stops.\<close>

fun run :: "operation list \<Rightarrow> world \<Rightarrow> outcome" where
  "run [] s = Inr s"
| "run (x # xs) s = (case perform x s of Inl e \<Rightarrow> Inl e | Inr s' \<Rightarrow> run xs s')"

text \<open>Why the process stopped, if it did.\<close>

definition stop_reason :: "outcome \<Rightarrow> stop option" where
  "stop_reason r = (case r of Inl (e, s) \<Rightarrow> Some e | Inr s \<Rightarrow> None)"

text \<open>A lifecycle call that the base class turns down.\<close>

definition rejected :: "outcome \<Rightarrow> bool" where
  "rejected r = (stop_reason r = Some LifecycleViolation)"

text \<open>
  The classes of the Systems in the order of the ten \<^verbatim>\<open>addSystem\<close> statements of
  \<^verbatim>\<open>OgreEngine::init\<close>.
\<close>

definition pipeline_classes :: "system_class list" where
  "pipeline_classes =
     [KeyboardSystem, OgreAddSceneNodeSystem, OgreUpdateSceneNodeSystem,
      OgreCameraSystem, OgreLightSystem, SkySystem, OgreEntitySystem,
      OgreViewportSystem, OgreRemoveSceneNodeSystem, RenderSystem]"

text \<open>What no statement of \<open>init_setup\<close> assigns.\<close>

definition kept :: "world \<Rightarrow> world \<Rightarrow> bool" where
  "kept s t =
     (lifecycle t = lifecycle s
      \<and> m_keyboardSystem t = m_keyboardSystem s
      \<and> m_viewportSystem t = m_viewportSystem s)"

text \<open>The position of a lifecycle state on the path from Uninitialized to ShutDown.\<close>

fun rank :: "lifecycle_state \<Rightarrow> nat" where
  "rank Uninitialized = 0"
| "rank Initialized = 1"
| "rank Running = 2"
| "rank ShutDown = 3"

section \<open>Two environments and the engine they start\<close>

text \<open>
  A release build whose manifest lists a Zip archive before a directory, in one section;
  the stored display configuration cannot be restored, and the user confirms the dialog.
\<close>

definition env0 :: env where
  "env0 =
     \<lparr>debug_build = False,
      resources_file =
        [(''General'', ''Zip'', ''b.zip''), (''General'', ''FileSystem'', ''media'')],
      restoreConfig_result = False,
      showConfigDialog_result = True,
      auto_window = 100,
      scene_manager = 101,
      window_handle = 4711,
      input_system = 102,
      shutdown_reversed = False\<rparr>"

text \<open>The same surroundings, but the user cancels the dialog.\<close>

definition env_cancelled :: env where
  "env_cancelled = env0\<lparr>showConfigDialog_result := False\<rparr>"

text \<open>The engine built at address 0 after \<open>init\<close> has returned in \<open>env0\<close>.\<close>

definition engine0 :: world where
  "engine0 =
     \<lparr>m_impl = Addr 0,
      m_root = Addr 4,
      m_inputManager = Addr 102,
      m_keyboardSystem = Addr 1,
      m_sceneManager = Addr 101,
      m_viewportSystem = Addr 2,
      m_window = Addr 100,
      systems =
        [(KeyboardSystem, Addr 1), (OgreAddSceneNodeSystem, Addr 5),
         (OgreUpdateSceneNodeSystem, Addr 6), (OgreCameraSystem, Addr 7),
         (OgreLightSystem, Addr 8), (SkySystem, Addr 9),
         (OgreEntitySystem, Addr 10), (OgreViewportSystem, Addr 2),
         (OgreRemoveSceneNodeSystem, Addr 11), (RenderSystem, Addr 12)],
      lifecycle = Initialized,
      quit_requested = False,
      logManager = Addr 3,
      next_free = 13,
      calls =
        [NewSystem (KeyboardSystem, Addr 1), NewSystem (OgreViewportSystem, Addr 2),
         NewLogManager (Addr 3), CreateLog ''default'' True False False,
         NewRoot (Addr 4) ''plugins.cfg'',
         ConfigFileLoad ''resources.cfg'',
         AddResourceLocation ''media'' ''FileSystem'' ''General'',
         AddResourceLocation ''b.zip'' ''Zip'' ''General'',
         RestoreConfig (Addr 4), ShowConfigDialog (Addr 4),
         RootInitialise (Addr 4) True ''Thrive'',
         AddWindowEventListener (Addr 100) (Addr 0),
         SetDefaultNumMipmaps 5, InitialiseAllResourceGroups,
         CreateSceneManager (Addr 4) ''DefaultSceneManager'',
         SetAmbientLight (Addr 101) (1 / 2) (1 / 2) (1 / 2),
         GetCustomAttribute (Addr 100) ''WINDOW'',
         CreateInputSystem [(''WINDOW'', ''4711'')],
         AddSystem (KeyboardSystem, Addr 1),
         NewSystem (OgreAddSceneNodeSystem, Addr 5),
         AddSystem (OgreAddSceneNodeSystem, Addr 5),
         NewSystem (OgreUpdateSceneNodeSystem, Addr 6),
         AddSystem (OgreUpdateSceneNodeSystem, Addr 6),
         NewSystem (OgreCameraSystem, Addr 7),
         AddSystem (OgreCameraSystem, Addr 7),
         NewSystem (OgreLightSystem, Addr 8),
         AddSystem (OgreLightSystem, Addr 8),
         NewSystem (SkySystem, Addr 9),
         AddSystem (SkySystem, Addr 9),
         NewSystem (OgreEntitySystem, Addr 10),
         AddSystem (OgreEntitySystem, Addr 10),
         AddSystem (OgreViewportSystem, Addr 2),
         NewSystem (OgreRemoveSceneNodeSystem, Addr 11),
         AddSystem (OgreRemoveSceneNodeSystem, Addr 11),
         NewSystem (RenderSystem, Addr 12),
         AddSystem (RenderSystem, Addr 12),
         SystemInit (KeyboardSystem, Addr 1),
         SystemInit (OgreAddSceneNodeSystem, Addr 5),
         SystemInit (OgreUpdateSceneNodeSystem, Addr 6),
         SystemInit (OgreCameraSystem, Addr 7),
         SystemInit (OgreLightSystem, Addr 8),
         SystemInit (SkySystem, Addr 9),
         SystemInit (OgreEntitySystem, Addr 10),
         SystemInit (OgreViewportSystem, Addr 2),
         SystemInit (OgreRemoveSceneNodeSystem, Addr 11),
         SystemInit (RenderSystem, Addr 12)]\<rparr>"

section \<open>Basic facts\<close>

lemma add_settings_emit:
  "add_settings sec content s =
     emit_all (map (\<lambda>(ty, loc). AddResourceLocation loc ty sec) content) s"
  by (induction content arbitrary: s)
     (auto simp: emit_def emit_all_def Let_def split: prod.splits)

lemma add_sections_emit: "add_sections m s = emit_all (resource_calls m) s"
  by (induction m arbitrary: s)
     (auto simp: add_settings_emit emit_all_def resource_calls_def registrations_def
           split: prod.splits)

lemma loadResources_emit:
  "loadResources env s =
     emit_all (ConfigFileLoad (RESOURCES_CFG env)
                 # resource_calls (ConfigFile_load (resources_file env))) s"
  by (simp add: loadResources_def add_sections_emit emit_all_def emit_def)

lemma run_steps_append:
  "run_steps (fs @ gs) s = (case run_steps fs s of Inl e \<Rightarrow> Inl e | Inr s' \<Rightarrow> run_steps gs s')"
  by (induction fs arbitrary: s) (auto split: sum.splits)

lemma run_steps_single: "run_steps [f] s = f s"
  by (simp split: sum.splits)

lemma init_as_setup:
  "init env s = (case run_steps (init_setup env) s of Inl e \<Rightarrow> Inl e | Inr t \<Rightarrow> Engine_init t)"
  by (simp only: init_def run_steps_append run_steps_single)

lemma setupLog_eq:
  "setupLog s =
     s\<lparr>logManager := (if logManager s = Null then Addr (next_free s) else logManager s),
       next_free := (if logManager s = Null then Suc (next_free s) else next_free s),
       calls := calls s
                  @ (if logManager s = Null then [NewLogManager (Addr (next_free s))] else [])
                  @ [CreateLog ''default'' True False False]\<rparr>"
  by (simp add: setupLog_def new_def emit_def Let_def)

lemma new_Root_eq:
  "new_Root env s =
     s\<lparr>m_root := Addr (next_free s),
       next_free := Suc (next_free s),
       calls := calls s @ NewRoot (Addr (next_free s)) (PLUGINS_CFG env)
                  # (if m_root s = Null then [] else [DeleteRoot (m_root s)])\<rparr>"
  by (simp add: new_Root_def m_root_reset_def new_def emit_def Let_def)

lemma loadConfig_eq:
  "m_root s \<noteq> Null \<Longrightarrow>
   loadConfig env s =
     (if restoreConfig_result env \<or> showConfigDialog_result env
      then Inr (s\<lparr>calls := calls s @ RestoreConfig (m_root s)
                  # (if restoreConfig_result env then [] else [ShowConfigDialog (m_root s)])\<rparr>)
      else Inl (ProcessExit EXIT_SUCCESS,
                s\<lparr>calls := calls s @ [RestoreConfig (m_root s), ShowConfigDialog (m_root s)]\<rparr>))"
  by (simp add: loadConfig_def deref_def emit_def Let_def)

lemma Engine_addSystem_eq:
  "Engine_addSystem sys s =
     s\<lparr>systems := systems s @ (if lifecycle s = Uninitialized then [sys] else []),
       calls := calls s @ [AddSystem sys]\<rparr>"
  by (simp add: Engine_addSystem_def emit_def)

lemma addSystem_make_shared_eq:
  "addSystem_make_shared T s =
     s\<lparr>next_free := Suc (next_free s),
       systems := systems s
                    @ (if lifecycle s = Uninitialized then [(T, Addr (next_free s))] else []),
       calls := calls s @ [NewSystem (T, Addr (next_free s)),
                           AddSystem (T, Addr (next_free s))]\<rparr>"
  by (simp add: addSystem_make_shared_def new_def emit_def Engine_addSystem_eq)

lemmas step_eqs =
  init_setup_def ok_def deref_def emit_def emit_all_def loadResources_emit
  setupLog_eq new_Root_eq loadConfig_eq root_initialise_def
  addWindowEventListener_def setupSceneManager_def setupLighting_def setupInputManager_def
  Engine_addSystem_eq addSystem_make_shared_eq Let_def

lemma added_systems_append:
  "added_systems (xs @ ys) = added_systems xs @ added_systems ys"
  by (induction xs rule: added_systems.induct) auto

lemma added_systems_resource_calls: "added_systems (resource_calls m) = []"
proof -
  have "added_systems (map (\<lambda>(loc, ty, sec). AddResourceLocation loc ty sec) xs) = []" for xs
    by (induction xs) auto
  then show ?thesis by (simp add: resource_calls_def)
qed

lemma added_systems_map_SystemInit: "added_systems (map SystemInit xs) = []"
  by (induction xs) auto

lemma ConfigFile_load_env0:
  "ConfigFile_load (resources_file env0) =
     [([], []), (''General'', [(''FileSystem'', ''media''), (''Zip'', ''b.zip'')])]"
  by (simp add: ConfigFile_load_def env0_def)

lemma lexical_cast_4711: "lexical_cast 4711 = ''4711''"
  by (simp add: lexical_cast.simps digit_def)

lemma env0_fields:
  "debug_build env0 = False"
  "restoreConfig_result env0 = False"
  "showConfigDialog_result env0 = True"
  "auto_window env0 = 100"
  "scene_manager env0 = 101"
  "window_handle env0 = 4711"
  "input_system env0 = 102"
  "shutdown_reversed env0 = False"
  by (simp_all add: env0_def)

text \<open>\<open>engine0\<close> is the state in which \<open>init\<close> returns.\<close>

lemma init_env0: "init env0 (OgreEngine 0) = Inr engine0"
  by (simp add: init_def Engine_init_def step_eqs ConfigFile_load_env0 lexical_cast_4711
        resource_calls_def registrations_def RESOURCES_CFG_def PLUGINS_CFG_def
        OgreEngine_def engine0_def env0_fields)

lemma deliver_eq:
  "deliver pending s =
     s\<lparr>quit_requested := quit_requested s \<or> m_window s \<in> set pending,
       calls := calls s @ quit_calls pending (m_window s)\<rparr>"
  by (induction pending arbitrary: s)
     (auto simp: windowClosing_def Game_quit_def emit_def quit_calls_def)

lemma system_updates_append:
  "system_updates (xs @ ys) = system_updates xs @ system_updates ys"
  by (induction xs rule: system_updates.induct) auto

lemma system_updates_map:
  "system_updates (map (\<lambda>sys. SystemUpdate sys dt) xs) = map (\<lambda>sys. (sys, dt)) xs"
  by (induction xs) auto

lemma system_updates_quit_calls: "system_updates (quit_calls pending w) = []"
  by (induction pending) (auto simp: quit_calls_def)

lemma update_eq:
  "lifecycle s = Initialized \<or> lifecycle s = Running \<Longrightarrow>
   update milliSeconds pending s =
     Inr (s\<lparr>quit_requested := quit_requested s \<or> m_window s \<in> set pending,
            calls := calls s @ MessagePump # quit_calls pending (m_window s)
                       @ map (\<lambda>sys. SystemUpdate sys milliSeconds) (systems s),
            lifecycle := Running\<rparr>)"
  by (auto simp: update_def ok_def messagePump_def deliver_eq emit_def emit_all_def
        Engine_update_def)

section \<open>The loaded resource manifest\<close>

lemma registrations_Nil: "registrations [] = []"
  by (simp add: registrations_def)

lemma registrations_Cons:
  "registrations ((sec, content) # m) = section_entries sec content @ registrations m"
  by (simp add: registrations_def section_entries_def)

lemma mset_multimap_insert: "mset (multimap_insert kv c) = add_mset kv (mset c)"
  by (induction c) auto

lemma set_multimap_insert: "set (multimap_insert kv c) = insert kv (set c)"
  by (induction c) auto

lemma sorted_multimap_insert:
  "sorted (map fst c) \<Longrightarrow> sorted (map fst (multimap_insert kv c))"
  by (induction c) (auto simp: set_multimap_insert)

lemma filter_multimap_insert:
  "sorted (map fst c) \<Longrightarrow>
   filter (\<lambda>x. fst x = k) (multimap_insert kv c) =
     filter (\<lambda>x. fst x = k) c @ (if fst kv = k then [kv] else [])"
proof (induction c)
  case Nil
  then show ?case by simp
next
  case (Cons x xs)
  show ?case
  proof (cases "fst kv < fst x")
    case True
    have "\<forall>y \<in> set (x # xs). fst kv < fst y"
      using Cons.prems True by auto
    then have "fst kv = k \<Longrightarrow> filter (\<lambda>y. fst y = k) (x # xs) = []"
      by (auto simp: filter_empty_conv)
    then show ?thesis using True by auto
  next
    case False
    then show ?thesis using Cons by auto
  qed
qed

lemma mset_section_entries_insert:
  "mset (section_entries sec (multimap_insert (ty, loc) c)) =
     add_mset (loc, ty, sec) (mset (section_entries sec c))"
  by (simp add: section_entries_def mset_multimap_insert)

lemma mset_registrations_insert:
  "mset (registrations (section_insert sec (ty, loc) m)) =
     add_mset (loc, ty, sec) (mset (registrations m))"
proof (induction m)
  case Nil
  then show ?case
    by (simp add: registrations_Nil registrations_Cons section_entries_def)
next
  case (Cons p m)
  obtain name content where p: "p = (name, content)" by (cases p)
  show ?case
    using Cons.IH
    by (simp add: p registrations_Cons mset_section_entries_insert)
       (simp add: section_entries_def)
qed

lemma section_insert_names:
  "fst ` set (section_insert sec kv m) = insert sec (fst ` set m)"
  by (induction sec kv m rule: section_insert.induct) (simp_all add: insert_commute)

lemma well_ordered_section_insert:
  "well_ordered m \<Longrightarrow> well_ordered (section_insert sec kv m)"
proof (induction m)
  case Nil
  then show ?case by (simp add: well_ordered_def)
next
  case (Cons p m)
  obtain name content where p: "p = (name, content)" by (cases p)
  have tail: "well_ordered m" using Cons.prems by (auto simp: well_ordered_def)
  show ?case
  proof (cases "sec = name")
    case True
    then show ?thesis
      using Cons.prems p by (auto simp: well_ordered_def sorted_multimap_insert)
  next
    case False
    show ?thesis
    proof (cases "sec < name")
      case True
      then show ?thesis
        using Cons.prems p False by (auto simp: well_ordered_def)
    next
      case ge: False
      have "well_ordered (section_insert sec kv m)" using Cons.IH tail by simp
      moreover have "\<forall>n \<in> fst ` set (section_insert sec kv m). name \<le> n \<and> name \<noteq> n"
        using Cons.prems p False ge by (auto simp: section_insert_names well_ordered_def)
      ultimately show ?thesis
        using Cons.prems p False ge by (auto simp: well_ordered_def)
    qed
  qed
qed


lemma well_ordered_Cons:
  assumes "well_ordered ((name, content) # m)"
  shows "well_ordered m" and "sorted (map fst content)" and "\<forall>n \<in> fst ` set m. name < n"
proof -
  show "well_ordered m" and "sorted (map fst content)"
    using assms by (auto simp: well_ordered_def)
  have "\<forall>n \<in> fst ` set m. name \<le> n" and "name \<notin> fst ` set m"
    using assms by (auto simp: well_ordered_def)
  then show "\<forall>n \<in> fst ` set m. name < n"
    by (metis order.strict_iff_order)
qed

lemma filter_section_entries:
  "filter (\<lambda>e. by_section_and_type e = (s0, t0)) (section_entries sec c) =
     (if sec = s0 then section_entries sec (filter (\<lambda>x. fst x = t0) c) else [])"
  by (induction c) (auto simp: section_entries_def by_section_and_type_def)

lemma section_entries_append:
  "section_entries sec (xs @ ys) = section_entries sec xs @ section_entries sec ys"
  by (simp add: section_entries_def)

lemma filter_registrations_absent:
  "s0 \<notin> fst ` set m \<Longrightarrow>
   filter (\<lambda>e. by_section_and_type e = (s0, t0)) (registrations m) = []"
proof (induction m)
  case Nil
  then show ?case by (simp add: registrations_Nil)
next
  case (Cons p m)
  obtain name content where p: "p = (name, content)" by (cases p)
  show ?case
    using Cons by (auto simp: p registrations_Cons filter_section_entries)
qed

lemma filter_registrations_insert:
  assumes "well_ordered m"
  shows "filter (\<lambda>e. by_section_and_type e = (s0, t0))
           (registrations (section_insert sec (ty, loc) m)) =
         filter (\<lambda>e. by_section_and_type e = (s0, t0)) (registrations m)
           @ (if (s0, t0) = (sec, ty) then [(loc, ty, sec)] else [])"
  using assms
proof (induction m)
  case Nil
  then show ?case
    by (simp add: registrations_Nil registrations_Cons section_entries_def
          by_section_and_type_def)
next
  case (Cons p m)
  obtain name content where p: "p = (name, content)" by (cases p)
  have tail: "well_ordered m"
    and content: "sorted (map fst content)"
    and above: "\<forall>n \<in> fst ` set m. name < n"
    using well_ordered_Cons [of name content m] Cons.prems p by simp_all
  show ?case
  proof (cases "sec = name")
    case True
    have "name \<notin> fst ` set m" using above by auto
    then have none: "filter (\<lambda>e. by_section_and_type e = (name, t0)) (registrations m) = []"
      by (rule filter_registrations_absent)
    show ?thesis
      using True none
      by (auto simp: p registrations_Cons filter_section_entries
            filter_multimap_insert [OF content] section_entries_append)
         (simp_all add: section_entries_def)
  next
    case False
    show ?thesis
    proof (cases "sec < name")
      case True
      have "sec \<notin> fst ` set ((name, content) # m)" using above True by auto
      then have "filter (\<lambda>e. by_section_and_type e = (sec, t0))
                   (registrations ((name, content) # m)) = []"
        by (rule filter_registrations_absent)
      then show ?thesis
        using True False
        by (auto simp: p registrations_Cons [of sec] section_entries_def
              by_section_and_type_def)
    next
      case ge: False
      show ?thesis
        using Cons.IH [OF tail] False ge
        by (simp add: p registrations_Cons)
    qed
  qed
qed

lemma registrations_sections:
  "e \<in> set (registrations m) \<Longrightarrow> fst (by_section_and_type e) \<in> fst ` set m"
proof (induction m)
  case Nil
  then show ?case by (simp add: registrations_Nil)
next
  case (Cons p m)
  obtain name content where p: "p = (name, content)" by (cases p)
  show ?case
    using Cons
    by (auto simp: p registrations_Cons section_entries_def by_section_and_type_def)
qed

lemma sorted_section_entries:
  "sorted (map fst c) \<Longrightarrow> sorted (map by_section_and_type (section_entries sec c))"
  by (induction c) (auto simp: section_entries_def by_section_and_type_def)

lemma sorted_registrations:
  "well_ordered m \<Longrightarrow> sorted (map by_section_and_type (registrations m))"
proof (induction m)
  case Nil
  then show ?case by (simp add: registrations_Nil)
next
  case (Cons p m)
  obtain name content where p: "p = (name, content)" by (cases p)
  have tail: "well_ordered m"
    and content: "sorted (map fst content)"
    and above: "\<forall>n \<in> fst ` set m. name < n"
    using well_ordered_Cons [of name content m] Cons.prems p by simp_all
  have "by_section_and_type x \<le> by_section_and_type y"
    if "x \<in> set (section_entries name content)" and "y \<in> set (registrations m)" for x y
  proof -
    have "fst (by_section_and_type x) = name"
      using that(1) by (auto simp: section_entries_def by_section_and_type_def)
    moreover have "name < fst (by_section_and_type y)"
      using registrations_sections [OF that(2)] above by auto
    ultimately show ?thesis by (simp add: less_eq_prod_def)
  qed
  then show ?case
    using Cons.IH [OF tail] sorted_section_entries [OF content, of name]
    by (auto simp: p registrations_Cons sorted_append)
qed


lemma load_fold:
  assumes "well_ordered m"
  shows "well_ordered (foldl (\<lambda>m (sec, ty, loc). section_insert sec (ty, loc) m) m manifest)
    \<and> mset (registrations (foldl (\<lambda>m (sec, ty, loc). section_insert sec (ty, loc) m) m manifest))
        = mset (registrations m) + mset (entries_in_file_order manifest)
    \<and> (\<forall>s0 t0.
          filter (\<lambda>e. by_section_and_type e = (s0, t0))
            (registrations (foldl (\<lambda>m (sec, ty, loc). section_insert sec (ty, loc) m) m manifest))
          = filter (\<lambda>e. by_section_and_type e = (s0, t0)) (registrations m)
              @ filter (\<lambda>e. by_section_and_type e = (s0, t0)) (entries_in_file_order manifest))"
  using assms
proof (induction manifest arbitrary: m)
  case Nil
  then show ?case by (simp add: entries_in_file_order_def)
next
  case (Cons x manifest)
  obtain sec ty loc where x: "x = (sec, ty, loc)" by (cases x)
  have w: "well_ordered (section_insert sec (ty, loc) m)"
    using Cons.prems by (rule well_ordered_section_insert)
  have e: "entries_in_file_order ((sec, ty, loc) # manifest) =
             (loc, ty, sec) # entries_in_file_order manifest"
    by (simp add: entries_in_file_order_def)
  have k: "by_section_and_type (loc, ty, sec) = (sec, ty)"
    by (simp add: by_section_and_type_def)
  note ih = Cons.IH [OF w]
  have "filter (\<lambda>e. by_section_and_type e = (s0, t0))
          (registrations (section_insert sec (ty, loc) m))
          @ filter (\<lambda>e. by_section_and_type e = (s0, t0)) (entries_in_file_order manifest)
        = filter (\<lambda>e. by_section_and_type e = (s0, t0)) (registrations m)
          @ filter (\<lambda>e. by_section_and_type e = (s0, t0))
              (entries_in_file_order ((sec, ty, loc) # manifest))" for s0 t0
    by (auto simp: e k filter_registrations_insert [OF Cons.prems])
  then show ?case
    using ih by (simp add: x e mset_registrations_insert)
qed

lemma ConfigFile_load_properties:
  "mset (registrations (ConfigFile_load manifest)) = mset (entries_in_file_order manifest)"
  "filter (\<lambda>e. by_section_and_type e = (s0, t0)) (registrations (ConfigFile_load manifest))
     = filter (\<lambda>e. by_section_and_type e = (s0, t0)) (entries_in_file_order manifest)"
  "sorted (map by_section_and_type (registrations (ConfigFile_load manifest)))"
proof -
  have w: "well_ordered [([], [])]" by (simp add: well_ordered_def)
  have r: "registrations [([], [])] = []" by (simp add: registrations_def)
  note f = load_fold [OF w, of manifest, folded ConfigFile_load_def]
  show "mset (registrations (ConfigFile_load manifest)) = mset (entries_in_file_order manifest)"
    using f r by simp
  show "filter (\<lambda>e. by_section_and_type e = (s0, t0)) (registrations (ConfigFile_load manifest))
     = filter (\<lambda>e. by_section_and_type e = (s0, t0)) (entries_in_file_order manifest)"
    using f r by simp
  show "sorted (map by_section_and_type (registrations (ConfigFile_load manifest)))"
    using f by (simp add: sorted_registrations)
qed

lemma registrations_sorted_file:
  "registrations (ConfigFile_load manifest) =
     sort_key by_section_and_type (entries_in_file_order manifest)"
proof (rule properties_for_sort_key [symmetric])
  show "mset (registrations (ConfigFile_load manifest)) = mset (entries_in_file_order manifest)"
    by (rule ConfigFile_load_properties)
  show "sorted (map by_section_and_type (registrations (ConfigFile_load manifest)))"
    by (rule ConfigFile_load_properties)
  fix k
  obtain s0 t0 where k: "by_section_and_type k = (s0, t0)"
    by (cases "by_section_and_type k")
  have "filter (\<lambda>e. (s0, t0) = by_section_and_type e) (registrations (ConfigFile_load manifest))
        = filter (\<lambda>e. (s0, t0) = by_section_and_type e) (entries_in_file_order manifest)"
    using ConfigFile_load_properties(2) [of s0 t0 manifest] by (simp add: eq_commute)
  then show "filter (\<lambda>e. by_section_and_type k = by_section_and_type e)
                 (registrations (ConfigFile_load manifest))
             = filter (\<lambda>e. by_section_and_type k = by_section_and_type e)
                 (entries_in_file_order manifest)"
    by (simp add: k)
qed

lemma registered_locations_resource_calls:
  "registered_locations (resource_calls m) = registrations m"
proof -
  have "registered_locations (map (\<lambda>(loc, ty, sec). AddResourceLocation loc ty sec) xs) = xs"
    for xs
    by (induction xs) auto
  then show ?thesis by (simp add: resource_calls_def)
qed

section \<open>The outcome of init\<close>

lemma resolve_steps_outcome:
  "\<exists>t cs. run_steps (take 4 (init_setup env)) s =
          (if restoreConfig_result env \<or> showConfigDialog_result env then Inr t
           else Inl (ProcessExit EXIT_SUCCESS, t))
      \<and> kept s t \<and> systems t = systems s \<and> m_root t \<noteq> Null
      \<and> calls t = calls s @ cs \<and> added_systems cs = []"
  by (simp add: kept_def step_eqs added_systems_append added_systems_resource_calls)

lemma surface_steps_outcome:
  "m_root s \<noteq> Null \<Longrightarrow>
   \<exists>t cs. run_steps (take 7 (drop 4 (init_setup env))) s = Inr t
      \<and> kept s t \<and> systems t = systems s
      \<and> calls t = calls s @ cs \<and> added_systems cs = []"
  by (simp add: kept_def step_eqs)

lemma register_steps_outcome:
  "\<exists>t cs reg. run_steps (drop 11 (init_setup env)) s = Inr t
      \<and> kept s t
      \<and> systems t = systems s @ reg
      \<and> map fst reg = (if lifecycle s = Uninitialized then pipeline_classes else [])
      \<and> calls t = calls s @ cs \<and> map fst (added_systems cs) = pipeline_classes"
  by (simp add: kept_def step_eqs pipeline_classes_def)

lemma init_setup_phases:
  "init_setup env =
     take 4 (init_setup env) @ take 7 (drop 4 (init_setup env)) @ drop 11 (init_setup env)"
  by (simp add: init_setup_def)

lemma init_setup_outcome:
  "\<exists>t cs reg. run_steps (init_setup env) s =
          (if restoreConfig_result env \<or> showConfigDialog_result env then Inr t
           else Inl (ProcessExit EXIT_SUCCESS, t))
      \<and> kept s t
      \<and> calls t = calls s @ cs
      \<and> map fst (added_systems cs) =
          (if restoreConfig_result env \<or> showConfigDialog_result env
           then pipeline_classes else [])
      \<and> systems t = systems s @ reg
      \<and> map fst reg =
          (if (restoreConfig_result env \<or> showConfigDialog_result env)
                \<and> lifecycle s = Uninitialized
           then pipeline_classes else [])"
proof -
  obtain t1 cs1 where a:
    "run_steps (take 4 (init_setup env)) s =
       (if restoreConfig_result env \<or> showConfigDialog_result env then Inr t1
        else Inl (ProcessExit EXIT_SUCCESS, t1))"
    "kept s t1" "systems t1 = systems s" "m_root t1 \<noteq> Null"
    "calls t1 = calls s @ cs1" "added_systems cs1 = []"
    using resolve_steps_outcome [of env s] by blast
  obtain t2 cs2 where b:
    "run_steps (take 7 (drop 4 (init_setup env))) t1 = Inr t2"
    "kept t1 t2" "systems t2 = systems t1"
    "calls t2 = calls t1 @ cs2" "added_systems cs2 = []"
    using surface_steps_outcome [OF a(4), of env] by blast
  obtain t3 cs3 reg where c:
    "run_steps (drop 11 (init_setup env)) t2 = Inr t3"
    "kept t2 t3"
    "systems t3 = systems t2 @ reg"
    "map fst reg = (if lifecycle t2 = Uninitialized then pipeline_classes else [])"
    "calls t3 = calls t2 @ cs3" "map fst (added_systems cs3) = pipeline_classes"
    using register_steps_outcome [of env t2] by blast
  show ?thesis
  proof (cases "restoreConfig_result env \<or> showConfigDialog_result env")
    case True
    have "run_steps (init_setup env) s = Inr t3"
      using a(1) b(1) c(1) True
      by (subst init_setup_phases) (simp add: run_steps_append)
    moreover have "kept s t3"
      using a(2) b(2) c(2) by (simp add: kept_def)
    moreover have "calls t3 = calls s @ (cs1 @ cs2 @ cs3)"
      using a(5) b(4) c(5) by simp
    moreover have "map fst (added_systems (cs1 @ cs2 @ cs3)) = pipeline_classes"
      using a(6) b(5) c(6) by (simp add: added_systems_append)
    moreover have "systems t3 = systems s @ reg"
      using a(3) b(3) c(3) by simp
    moreover have "map fst reg =
        (if lifecycle s = Uninitialized then pipeline_classes else [])"
      using a(2) b(2) c(4) by (simp add: kept_def)
    ultimately show ?thesis using True by auto
  next
    case False
    have "run_steps (init_setup env) s = Inl (ProcessExit EXIT_SUCCESS, t1)"
      using a(1) False
      by (subst init_setup_phases) (simp add: run_steps_append)
    then show ?thesis using a(2,3,5,6) False by auto
  qed
qed

lemma Engine_init_eq:
  "Engine_init t =
     (if lifecycle t = Uninitialized
      then Inr (t\<lparr>calls := calls t @ map SystemInit (systems t), lifecycle := Initialized\<rparr>)
      else Inl (LifecycleViolation, t))"
  by (simp add: Engine_init_def emit_all_def)

lemma init_outcome:
  "\<exists>t cs reg. init env s =
          (if \<not> (restoreConfig_result env \<or> showConfigDialog_result env)
           then Inl (ProcessExit EXIT_SUCCESS, t)
           else if lifecycle s = Uninitialized
           then Inr (t\<lparr>calls := calls t @ map SystemInit (systems t),
                       lifecycle := Initialized\<rparr>)
           else Inl (LifecycleViolation, t))
      \<and> kept s t
      \<and> calls t = calls s @ cs
      \<and> map fst (added_systems cs) =
          (if restoreConfig_result env \<or> showConfigDialog_result env
           then pipeline_classes else [])
      \<and> systems t = systems s @ reg
      \<and> map fst reg =
          (if (restoreConfig_result env \<or> showConfigDialog_result env)
                \<and> lifecycle s = Uninitialized
           then pipeline_classes else [])"
proof -
  obtain t cs reg where a:
    "run_steps (init_setup env) s =
       (if restoreConfig_result env \<or> showConfigDialog_result env then Inr t
        else Inl (ProcessExit EXIT_SUCCESS, t))"
    "kept s t" "calls t = calls s @ cs"
    "map fst (added_systems cs) =
       (if restoreConfig_result env \<or> showConfigDialog_result env
        then pipeline_classes else [])"
    "systems t = systems s @ reg"
    "map fst reg =
       (if (restoreConfig_result env \<or> showConfigDialog_result env)
             \<and> lifecycle s = Uninitialized
        then pipeline_classes else [])"
    using init_setup_outcome [of env s] by blast
  have "init env s =
          (if \<not> (restoreConfig_result env \<or> showConfigDialog_result env)
           then Inl (ProcessExit EXIT_SUCCESS, t)
           else if lifecycle s = Uninitialized
           then Inr (t\<lparr>calls := calls t @ map SystemInit (systems t),
                       lifecycle := Initialized\<rparr>)
           else Inl (LifecycleViolation, t))"
    using a(1,2) by (simp add: init_as_setup Engine_init_eq kept_def)
  then show ?thesis using a(2-6) by blast
qed

lemma env_cancelled_fields:
  "restoreConfig_result env_cancelled = False"
  "showConfigDialog_result env_cancelled = False"
  by (simp_all add: env_cancelled_def env0_def)

section \<open>What one call keeps\<close>

lemma update_out_of_order:
  "lifecycle s \<noteq> Initialized \<Longrightarrow> lifecycle s \<noteq> Running \<Longrightarrow>
   \<exists>s'. update milliSeconds pending s = Inl (LifecycleViolation, s')
      \<and> lifecycle s' = lifecycle s
      \<and> m_keyboardSystem s' = m_keyboardSystem s
      \<and> m_viewportSystem s' = m_viewportSystem s
      \<and> m_inputManager s' = m_inputManager s \<and> m_root s' = m_root s
      \<and> m_sceneManager s' = m_sceneManager s \<and> m_window s' = m_window s"
  by (simp add: update_def ok_def messagePump_def deliver_eq emit_def Engine_update_def)

lemma shutdown_out_of_order:
  "lifecycle s \<noteq> Initialized \<Longrightarrow> lifecycle s \<noteq> Running \<Longrightarrow>
   shutdown env s = Inl (LifecycleViolation, s)"
  by (simp add: shutdown_def Engine_shutdown_def)

lemma shutdown_in_order:
  "lifecycle s = Initialized \<or> lifecycle s = Running \<Longrightarrow>
   lifecycle (state_of (shutdown env s)) = ShutDown
   \<and> m_keyboardSystem (state_of (shutdown env s)) = m_keyboardSystem s
   \<and> m_viewportSystem (state_of (shutdown env s)) = m_viewportSystem s
   \<and> m_inputManager (state_of (shutdown env s)) = Null
   \<and> m_sceneManager (state_of (shutdown env s)) = m_sceneManager s
   \<and> m_window (state_of (shutdown env s)) = m_window s
   \<and> (m_root s = Null \<longrightarrow> m_root (state_of (shutdown env s)) = Null)
   \<and> (m_window s \<noteq> Null \<longrightarrow>
        shutdown env s = Inr (state_of (shutdown env s))
        \<and> m_root (state_of (shutdown env s)) = Null)"
  by (auto simp: shutdown_def ok_def deref_def emit_def emit_all_def state_of_def
        shutdownInputManager_def Engine_shutdown_def m_root_reset_def Let_def)

lemma perform_init:
  "rank (lifecycle s) \<le> rank (lifecycle (state_of (init env s)))
   \<and> m_keyboardSystem (state_of (init env s)) = m_keyboardSystem s
   \<and> m_viewportSystem (state_of (init env s)) = m_viewportSystem s"
proof -
  obtain t where a:
    "init env s =
       (if \<not> (restoreConfig_result env \<or> showConfigDialog_result env)
        then Inl (ProcessExit EXIT_SUCCESS, t)
        else if lifecycle s = Uninitialized
        then Inr (t\<lparr>calls := calls t @ map SystemInit (systems t),
                    lifecycle := Initialized\<rparr>)
        else Inl (LifecycleViolation, t))"
    "kept s t"
    using init_outcome [of env s] by blast
  show ?thesis
    using a by (auto simp: state_of_def kept_def)
qed

lemma perform_update:
  "rank (lifecycle s) \<le> rank (lifecycle (state_of (update milliSeconds pending s)))
   \<and> m_keyboardSystem (state_of (update milliSeconds pending s)) = m_keyboardSystem s
   \<and> m_viewportSystem (state_of (update milliSeconds pending s)) = m_viewportSystem s
   \<and> m_inputManager (state_of (update milliSeconds pending s)) = m_inputManager s
   \<and> m_root (state_of (update milliSeconds pending s)) = m_root s
   \<and> m_sceneManager (state_of (update milliSeconds pending s)) = m_sceneManager s
   \<and> m_window (state_of (update milliSeconds pending s)) = m_window s"
proof (cases "lifecycle s = Initialized \<or> lifecycle s = Running")
  case True
  then show ?thesis
    by (auto simp: update_eq state_of_def)
next
  case False
  then show ?thesis
    using update_out_of_order [of s milliSeconds pending]
    by (auto simp: state_of_def)
qed

lemma perform_shutdown:
  "rank (lifecycle s) \<le> rank (lifecycle (state_of (shutdown env s)))
   \<and> m_keyboardSystem (state_of (shutdown env s)) = m_keyboardSystem s
   \<and> m_viewportSystem (state_of (shutdown env s)) = m_viewportSystem s
   \<and> m_sceneManager (state_of (shutdown env s)) = m_sceneManager s
   \<and> m_window (state_of (shutdown env s)) = m_window s
   \<and> (m_inputManager s = Null \<longrightarrow> m_inputManager (state_of (shutdown env s)) = Null)
   \<and> (m_root s = Null \<longrightarrow> m_root (state_of (shutdown env s)) = Null)"
proof (cases "lifecycle s = Initialized \<or> lifecycle s = Running")
  case True
  then show ?thesis
    using shutdown_in_order [OF True, of env]
    by auto
next
  case False
  then show ?thesis
    by (simp add: shutdown_out_of_order state_of_def)
qed

lemma perform_windowClosing:
  "lifecycle (snd (windowClosing w s)) = lifecycle s
   \<and> m_keyboardSystem (snd (windowClosing w s)) = m_keyboardSystem s
   \<and> m_viewportSystem (snd (windowClosing w s)) = m_viewportSystem s
   \<and> m_inputManager (snd (windowClosing w s)) = m_inputManager s
   \<and> m_root (snd (windowClosing w s)) = m_root s
   \<and> m_sceneManager (snd (windowClosing w s)) = m_sceneManager s
   \<and> m_window (snd (windowClosing w s)) = m_window s"
  by (simp add: windowClosing_def Game_quit_def emit_def)

lemma perform_keeps:
  "rank (lifecycle s) \<le> rank (lifecycle (state_of (perform x s)))
   \<and> m_keyboardSystem (state_of (perform x s)) = m_keyboardSystem s
   \<and> m_viewportSystem (state_of (perform x s)) = m_viewportSystem s"
proof (cases x)
  case (Init env)
  then show ?thesis using perform_init [of s env] by simp
next
  case (Update milliSeconds pending)
  then show ?thesis using perform_update [of s milliSeconds pending] by simp
next
  case (Shutdown env)
  then show ?thesis using perform_shutdown [of s env] by simp
next
  case (WindowClosing w)
  then show ?thesis using perform_windowClosing [of w s] by (simp add: state_of_def)
qed

lemma perform_keeps_null:
  assumes "\<not> is_Init x"
      and "m_inputManager s = Null \<and> m_root s = Null
           \<and> m_sceneManager s = Null \<and> m_window s = Null"
  shows "m_inputManager (state_of (perform x s)) = Null
         \<and> m_root (state_of (perform x s)) = Null
         \<and> m_sceneManager (state_of (perform x s)) = Null
         \<and> m_window (state_of (perform x s)) = Null"
proof (cases x)
  case (Init env)
  then show ?thesis using assms(1) by simp
next
  case (Update milliSeconds pending)
  then show ?thesis using perform_update [of s milliSeconds pending] assms(2) by simp
next
  case (Shutdown env)
  then show ?thesis using perform_shutdown [of s env] assms(2) by simp
next
  case (WindowClosing w)
  then show ?thesis using perform_windowClosing [of w s] assms(2) by (simp add: state_of_def)
qed

lemma state_of_run_Cons:
  "state_of (run (x # xs) s) =
     (case perform x s of Inl e \<Rightarrow> state_of (perform x s)
                        | Inr s' \<Rightarrow> state_of (run xs s'))"
  by (simp add: state_of_def split: sum.splits)

lemma run_keeps:
  "rank (lifecycle s) \<le> rank (lifecycle (state_of (run ops s)))
   \<and> m_keyboardSystem (state_of (run ops s)) = m_keyboardSystem s
   \<and> m_viewportSystem (state_of (run ops s)) = m_viewportSystem s"
proof (induction ops arbitrary: s)
  case Nil
  then show ?case by (simp add: state_of_def)
next
  case (Cons x xs)
  show ?case
  proof (cases "perform x s")
    case (Inl e)
    then show ?thesis
      using perform_keeps [of s x] by (simp add: state_of_run_Cons)
  next
    case (Inr s')
    then have "state_of (perform x s) = s'" by (simp add: state_of_def)
    then show ?thesis
      using perform_keeps [of s x] Cons.IH [of s'] Inr by (simp add: state_of_run_Cons)
  qed
qed

lemma run_keeps_null:
  assumes "\<forall>x \<in> set ops. \<not> is_Init x"
      and "m_inputManager s = Null \<and> m_root s = Null
           \<and> m_sceneManager s = Null \<and> m_window s = Null"
  shows "m_inputManager (state_of (run ops s)) = Null
         \<and> m_root (state_of (run ops s)) = Null
         \<and> m_sceneManager (state_of (run ops s)) = Null
         \<and> m_window (state_of (run ops s)) = Null"
  using assms
proof (induction ops arbitrary: s)
  case Nil
  then show ?case by (simp add: state_of_def)
next
  case (Cons x xs)
  have x: "\<not> is_Init x" and xs: "\<forall>y \<in> set xs. \<not> is_Init y"
    using Cons.prems(1) by simp_all
  show ?case
  proof (cases "perform x s")
    case (Inl e)
    then show ?thesis
      using perform_keeps_null [OF x Cons.prems(2)] by (simp add: state_of_run_Cons)
  next
    case (Inr s')
    then have "state_of (perform x s) = s'" by (simp add: state_of_def)
    then have "m_inputManager s' = Null \<and> m_root s' = Null
           \<and> m_sceneManager s' = Null \<and> m_window s' = Null"
      using perform_keeps_null [OF x Cons.prems(2)] by simp
    then show ?thesis
      using Cons.IH [OF xs, of s'] Inr by (simp add: state_of_run_Cons)
  qed
qed


lemma update_returns:
  "lifecycle s = Initialized \<or> lifecycle s = Running \<Longrightarrow>
   update milliSeconds pending s = Inr (state_of (update milliSeconds pending s))
   \<and> lifecycle (state_of (update milliSeconds pending s)) = Running"
  by (simp add: update_eq state_of_def)

section \<open>Initialisation\<close>

text \<open>
  C2. When the display configuration is resolved, \<open>init\<close> on an engine that is not yet
  initialized returns, and the Systems it hands to \<^verbatim>\<open>addSystem\<close> are, by class and in
  this order: keyboard, scene-node creation, scene-node update, camera, light, sky,
  entity, viewport, scene-node removal, render. The registry of the engine grows by
  exactly these. In particular scene-node creation and update precede the camera
  system, the camera system precedes the viewport system, the entity system precedes
  the removal system, and the removal system precedes the render system, which is last.
\<close>

theorem init_registers_fixed_pipeline:
  assumes "restoreConfig_result env \<or> showConfigDialog_result env"
      and "lifecycle s = Uninitialized"
  shows "\<exists>s'. init env s = Inr s' \<and>
     (let order = map fst (added_systems (new_calls s s')) in
        order =
          [KeyboardSystem, OgreAddSceneNodeSystem, OgreUpdateSceneNodeSystem,
           OgreCameraSystem, OgreLightSystem, SkySystem, OgreEntitySystem,
           OgreViewportSystem, OgreRemoveSceneNodeSystem, RenderSystem]
        \<and> map fst (systems s') = map fst (systems s) @ order
        \<and> before OgreAddSceneNodeSystem OgreCameraSystem order
        \<and> before OgreUpdateSceneNodeSystem OgreCameraSystem order
        \<and> before OgreCameraSystem OgreViewportSystem order
        \<and> before OgreEntitySystem OgreRemoveSceneNodeSystem order
        \<and> before OgreRemoveSceneNodeSystem RenderSystem order
        \<and> last order = RenderSystem)"
proof -
  obtain t cs reg where a:
    "init env s =
       Inr (t\<lparr>calls := calls t @ map SystemInit (systems t), lifecycle := Initialized\<rparr>)"
    "calls t = calls s @ cs"
    "map fst (added_systems cs) = pipeline_classes"
    "systems t = systems s @ reg"
    "map fst reg = pipeline_classes"
    using init_outcome [of env s] assms by auto
  show ?thesis
    using a
    by (simp add: new_calls_def added_systems_append added_systems_map_SystemInit
          pipeline_classes_def before_def)
qed

theorem init_registers_fixed_pipeline_witness:
  "(restoreConfig_result env0 \<or> showConfigDialog_result env0)
   \<and> lifecycle (OgreEngine 0) = Uninitialized
   \<and> (\<exists>s'. init env0 (OgreEngine 0) = Inr s'
          \<and> map fst (added_systems (new_calls (OgreEngine 0) s')) =
              [KeyboardSystem, OgreAddSceneNodeSystem, OgreUpdateSceneNodeSystem,
               OgreCameraSystem, OgreLightSystem, SkySystem, OgreEntitySystem,
               OgreViewportSystem, OgreRemoveSceneNodeSystem, RenderSystem]
          \<and> map fst (systems s') =
              [KeyboardSystem, OgreAddSceneNodeSystem, OgreUpdateSceneNodeSystem,
               OgreCameraSystem, OgreLightSystem, SkySystem, OgreEntitySystem,
               OgreViewportSystem, OgreRemoveSceneNodeSystem, RenderSystem])"
proof -
  have h1: "restoreConfig_result env0 \<or> showConfigDialog_result env0"
    by (simp add: env0_fields)
  have h2: "lifecycle (OgreEngine 0) = Uninitialized"
    by (simp add: OgreEngine_def)
  have e: "systems (OgreEngine 0) = []"
    by (simp add: OgreEngine_def)
  show ?thesis
    using h1 h2 e init_registers_fixed_pipeline [OF h1 h2]
    by (auto simp: Let_def)
qed

text \<open>
  C3, as the code has it. When the display configuration is resolved, \<open>init\<close> on an
  engine that is not yet initialized returns, and the calls it has made are exactly
  these, in this order: the log (the log manager is created on the first call only),
  the rendering root from the plugin manifest (an older root is deleted), the resource
  manifest and one resource location per entry, the stored display configuration (and
  the dialog if it cannot be restored), the window, the close listener, the default
  mipmap count and the resource groups, the scene manager, the ambient light, the
  window handle and the input system made from it, and only then the ten
  \<^verbatim>\<open>addSystem\<close> calls, followed by the initialisation of the registered Systems by
  \<^verbatim>\<open>Engine::init\<close>. Eight of the ten Systems are constructed at that point, each
  right before its own \<^verbatim>\<open>addSystem\<close>, and \<open>init\<close> constructs no other System; the
  keyboard System and the viewport System it registers are the objects that the engine
  holds already. The constructor of the engine is what constructs those two.
\<close>

theorem init_performs_setup_in_order:
  assumes "restoreConfig_result env \<or> showConfigDialog_result env"
      and "lifecycle s = Uninitialized"
  shows "(\<exists>s'. init env s = Inr s' \<and>
     (let n = (if logManager s = Null then Suc (next_free s) else next_free s);
          r = Addr n;
          w = Addr (auto_window env);
          keyboard = (KeyboardSystem, m_keyboardSystem s);
          viewport = (OgreViewportSystem, m_viewportSystem s);
          made =
            [(OgreAddSceneNodeSystem, Addr (n + 1)),
             (OgreUpdateSceneNodeSystem, Addr (n + 2)),
             (OgreCameraSystem, Addr (n + 3)),
             (OgreLightSystem, Addr (n + 4)),
             (SkySystem, Addr (n + 5)),
             (OgreEntitySystem, Addr (n + 6)),
             (OgreRemoveSceneNodeSystem, Addr (n + 7)),
             (RenderSystem, Addr (n + 8))]
      in new_calls s s' =
           (if logManager s = Null then [NewLogManager (Addr (next_free s))] else [])
           @ [CreateLog ''default'' True False False,
              NewRoot r (PLUGINS_CFG env)]
           @ (if m_root s = Null then [] else [DeleteRoot (m_root s)])
           @ ConfigFileLoad (RESOURCES_CFG env)
               # resource_calls (ConfigFile_load (resources_file env))
           @ RestoreConfig r
               # (if restoreConfig_result env then [] else [ShowConfigDialog r])
           @ [RootInitialise r True ''Thrive'',
              AddWindowEventListener w (m_impl s),
              SetDefaultNumMipmaps 5,
              InitialiseAllResourceGroups,
              CreateSceneManager r ''DefaultSceneManager'',
              SetAmbientLight (Addr (scene_manager env)) (1 / 2) (1 / 2) (1 / 2),
              GetCustomAttribute w ''WINDOW'',
              CreateInputSystem [(''WINDOW'', lexical_cast (window_handle env))],
              AddSystem keyboard,
              NewSystem (made ! 0), AddSystem (made ! 0),
              NewSystem (made ! 1), AddSystem (made ! 1),
              NewSystem (made ! 2), AddSystem (made ! 2),
              NewSystem (made ! 3), AddSystem (made ! 3),
              NewSystem (made ! 4), AddSystem (made ! 4),
              NewSystem (made ! 5), AddSystem (made ! 5),
              AddSystem viewport,
              NewSystem (made ! 6), AddSystem (made ! 6),
              NewSystem (made ! 7), AddSystem (made ! 7)]
           @ map SystemInit
               (systems s @ keyboard # take 6 made @ viewport # drop 6 made)
        \<and> constructed_systems (new_calls s s') = made
        \<and> added_systems (new_calls s s') =
            keyboard # take 6 made @ viewport # drop 6 made))
     \<and> constructed_systems (calls (OgreEngine a)) =
          [(KeyboardSystem, keyboardSystem (OgreEngine a)),
           (OgreViewportSystem, viewportSystem (OgreEngine a))]"
proof -
  have c: "constructed_systems (resource_calls m) = []" for m
  proof -
    have "constructed_systems
            (map (\<lambda>(loc, ty, sec). AddResourceLocation loc ty sec) xs) = []" for xs
      by (induction xs) auto
    then show ?thesis by (simp add: resource_calls_def)
  qed
  have c_app: "constructed_systems (xs @ ys) = constructed_systems xs @ constructed_systems ys"
    for xs ys
    by (induction xs rule: constructed_systems.induct) auto
  have c_init: "constructed_systems (map SystemInit xs) = []" for xs
    by (induction xs) auto
  have "\<exists>s'. init env s = Inr s' \<and>
     (let n = (if logManager s = Null then Suc (next_free s) else next_free s);
          r = Addr n;
          w = Addr (auto_window env);
          keyboard = (KeyboardSystem, m_keyboardSystem s);
          viewport = (OgreViewportSystem, m_viewportSystem s);
          made =
            [(OgreAddSceneNodeSystem, Addr (n + 1)),
             (OgreUpdateSceneNodeSystem, Addr (n + 2)),
             (OgreCameraSystem, Addr (n + 3)),
             (OgreLightSystem, Addr (n + 4)),
             (SkySystem, Addr (n + 5)),
             (OgreEntitySystem, Addr (n + 6)),
             (OgreRemoveSceneNodeSystem, Addr (n + 7)),
             (RenderSystem, Addr (n + 8))]
      in new_calls s s' =
           (if logManager s = Null then [NewLogManager (Addr (next_free s))] else [])
           @ [CreateLog ''default'' True False False,
              NewRoot r (PLUGINS_CFG env)]
           @ (if m_root s = Null then [] else [DeleteRoot (m_root s)])
           @ ConfigFileLoad (RESOURCES_CFG env)
               # resource_calls (ConfigFile_load (resources_file env))
           @ RestoreConfig r
               # (if restoreConfig_result env then [] else [ShowConfigDialog r])
           @ [RootInitialise r True ''Thrive'',
              AddWindowEventListener w (m_impl s),
              SetDefaultNumMipmaps 5,
              InitialiseAllResourceGroups,
              CreateSceneManager r ''DefaultSceneManager'',
              SetAmbientLight (Addr (scene_manager env)) (1 / 2) (1 / 2) (1 / 2),
              GetCustomAttribute w ''WINDOW'',
              CreateInputSystem [(''WINDOW'', lexical_cast (window_handle env))],
              AddSystem keyboard,
              NewSystem (made ! 0), AddSystem (made ! 0),
              NewSystem (made ! 1), AddSystem (made ! 1),
              NewSystem (made ! 2), AddSystem (made ! 2),
              NewSystem (made ! 3), AddSystem (made ! 3),
              NewSystem (made ! 4), AddSystem (made ! 4),
              NewSystem (made ! 5), AddSystem (made ! 5),
              AddSystem viewport,
              NewSystem (made ! 6), AddSystem (made ! 6),
              NewSystem (made ! 7), AddSystem (made ! 7)]
           @ map SystemInit
               (systems s @ keyboard # take 6 made @ viewport # drop 6 made)
        \<and> constructed_systems (new_calls s s') = made
        \<and> added_systems (new_calls s s') =
            keyboard # take 6 made @ viewport # drop 6 made)"
    using assms
    by (simp add: init_def Engine_init_eq step_eqs new_calls_def c c_app c_init
          added_systems_append added_systems_resource_calls added_systems_map_SystemInit)
  moreover have "constructed_systems (calls (OgreEngine a)) =
          [(KeyboardSystem, keyboardSystem (OgreEngine a)),
           (OgreViewportSystem, viewportSystem (OgreEngine a))]"
    by (simp add: OgreEngine_def keyboardSystem_def viewportSystem_def)
  ultimately show ?thesis by blast
qed

text \<open>
  C3, as stated, fails for the keyboard System and the viewport System: \<open>init\<close>
  registers them and does not construct them. They are constructed before \<open>init\<close> is
  called, by the constructor of the engine, and the accessors return them then.
\<close>

theorem init_registers_two_systems_of_the_constructor:
  "init env0 (OgreEngine 0) = Inr engine0
   \<and> constructed_systems (calls (OgreEngine 0)) =
       [(KeyboardSystem, Addr 1), (OgreViewportSystem, Addr 2)]
   \<and> keyboardSystem (OgreEngine 0) = Addr 1
   \<and> viewportSystem (OgreEngine 0) = Addr 2
   \<and> (KeyboardSystem, Addr 1) \<in> set (added_systems (new_calls (OgreEngine 0) engine0))
   \<and> (KeyboardSystem, Addr 1)
       \<notin> set (constructed_systems (new_calls (OgreEngine 0) engine0))
   \<and> (OgreViewportSystem, Addr 2) \<in> set (added_systems (new_calls (OgreEngine 0) engine0))
   \<and> (OgreViewportSystem, Addr 2)
       \<notin> set (constructed_systems (new_calls (OgreEngine 0) engine0))"
proof -
  have a: "constructed_systems (calls (OgreEngine 0)) =
             [(KeyboardSystem, Addr 1), (OgreViewportSystem, Addr 2)]
           \<and> keyboardSystem (OgreEngine 0) = Addr 1
           \<and> viewportSystem (OgreEngine 0) = Addr 2"
    by (simp add: keyboardSystem_def viewportSystem_def OgreEngine_def)
  have b: "added_systems (new_calls (OgreEngine 0) engine0) = systems engine0"
    by (simp add: new_calls_def OgreEngine_def engine0_def)
  have c: "(KeyboardSystem, Addr 1) \<in> set (systems engine0)
           \<and> (OgreViewportSystem, Addr 2) \<in> set (systems engine0)"
    by (simp add: engine0_def)
  have d: "constructed_systems (new_calls (OgreEngine 0) engine0) =
             [(OgreAddSceneNodeSystem, Addr 5), (OgreUpdateSceneNodeSystem, Addr 6),
              (OgreCameraSystem, Addr 7), (OgreLightSystem, Addr 8), (SkySystem, Addr 9),
              (OgreEntitySystem, Addr 10), (OgreRemoveSceneNodeSystem, Addr 11),
              (RenderSystem, Addr 12)]"
    by (simp add: new_calls_def OgreEngine_def engine0_def)
  show ?thesis
    using a b c init_env0 by (simp add: d)
qed

theorem init_performs_setup_in_order_witness:
  "(restoreConfig_result env0 \<or> showConfigDialog_result env0)
   \<and> lifecycle (OgreEngine 0) = Uninitialized
   \<and> (\<exists>s'. init env0 (OgreEngine 0) = Inr s'
          \<and> new_calls (OgreEngine 0) s' = drop 2 (calls engine0)
          \<and> constructed_systems (new_calls (OgreEngine 0) s') =
              [(OgreAddSceneNodeSystem, Addr 5), (OgreUpdateSceneNodeSystem, Addr 6),
               (OgreCameraSystem, Addr 7), (OgreLightSystem, Addr 8), (SkySystem, Addr 9),
               (OgreEntitySystem, Addr 10), (OgreRemoveSceneNodeSystem, Addr 11),
               (RenderSystem, Addr 12)])"
proof -
  have h1: "restoreConfig_result env0 \<or> showConfigDialog_result env0"
    by (simp add: env0_fields)
  have h2: "lifecycle (OgreEngine 0) = Uninitialized"
    by (simp add: OgreEngine_def)
  have e: "logManager (OgreEngine 0) = Null" "m_root (OgreEngine 0) = Null"
    "next_free (OgreEngine 0) = 3" "m_impl (OgreEngine 0) = Addr 0"
    "m_keyboardSystem (OgreEngine 0) = Addr 1" "m_viewportSystem (OgreEngine 0) = Addr 2"
    "systems (OgreEngine 0) = []"
    by (simp_all add: OgreEngine_def)
  show ?thesis
    using h1 h2 init_performs_setup_in_order [OF h1 h2, of 0]
    by (auto simp: Let_def e env0_fields ConfigFile_load_env0 lexical_cast_4711
          resource_calls_def registrations_def RESOURCES_CFG_def PLUGINS_CFG_def engine0_def)
qed

text \<open>
  C4. When the display configuration can neither be restored nor be obtained from the
  dialog, \<open>init\<close> does not return: the process exits with \<^verbatim>\<open>EXIT_SUCCESS\<close>, which is
  0. The dialog is the last call made, no \<^verbatim>\<open>addSystem\<close> call has been made, and the
  registry of the engine is as it was before the call, which is empty for an engine
  fresh from its constructor.
\<close>

theorem init_exits_when_config_unresolved:
  assumes "\<not> restoreConfig_result env" and "\<not> showConfigDialog_result env"
  shows "\<exists>s'. init env s = Inl (ProcessExit EXIT_SUCCESS, s')
           \<and> EXIT_SUCCESS = 0
           \<and> added_systems (new_calls s s') = []
           \<and> systems s' = systems s
           \<and> last (calls s') = ShowConfigDialog (m_root s')
           \<and> (s = OgreEngine a \<longrightarrow> systems s' = [])"
  using assms
  by (simp add: init_def step_eqs new_calls_def EXIT_SUCCESS_def
        added_systems_append added_systems_resource_calls OgreEngine_def)

theorem init_exits_when_config_unresolved_witness:
  "\<not> restoreConfig_result env_cancelled
   \<and> \<not> showConfigDialog_result env_cancelled
   \<and> (\<exists>s'. init env_cancelled (OgreEngine 0) = Inl (ProcessExit 0, s')
          \<and> added_systems (new_calls (OgreEngine 0) s') = []
          \<and> systems s' = [])"
proof -
  have h1: "\<not> restoreConfig_result env_cancelled"
    by (simp add: env_cancelled_fields)
  have h2: "\<not> showConfigDialog_result env_cancelled"
    by (simp add: env_cancelled_fields)
  show ?thesis
    using h1 h2 init_exits_when_config_unresolved [OF h1 h2, of "OgreEngine 0" 0]
    by auto
qed

section \<open>The frame update\<close>

text \<open>
  C1. For every elapsed time \<open>milliSeconds\<close> that is not negative, \<open>update\<close> on an
  initialized engine (lifecycle Initialized or Running) returns, and the calls it makes
  are: the event pump first (with the quit signals of the close requests the pump
  delivers), then \<^verbatim>\<open>update(milliSeconds)\<close> once for every entry of the list of registered
  Systems, in the order of registration, and nothing else.
\<close>

theorem update_pumps_then_updates_each_system:
  assumes "0 \<le> sint milliSeconds"
      and "lifecycle s = Initialized \<or> lifecycle s = Running"
  shows "\<exists>s'. update milliSeconds pending s = Inr s'
           \<and> new_calls s s' =
               MessagePump # quit_calls pending (m_window s)
                 @ map (\<lambda>sys. SystemUpdate sys milliSeconds) (systems s)
           \<and> system_updates (new_calls s s') =
               map (\<lambda>sys. (sys, milliSeconds)) (systems s)"
  using assms(2)
  by (simp add: update_eq new_calls_def system_updates_append system_updates_map
        system_updates_quit_calls)

theorem update_pumps_then_updates_each_system_witness:
  "0 \<le> sint (16 :: millis)
   \<and> lifecycle engine0 = Initialized
   \<and> (\<exists>s'. update 16 [] engine0 = Inr s'
          \<and> new_calls engine0 s' =
              MessagePump # map (\<lambda>sys. SystemUpdate sys 16) (systems engine0)
          \<and> system_updates (new_calls engine0 s') =
              map (\<lambda>sys. (sys, 16)) (systems engine0))"
proof -
  have h1: "0 \<le> sint (16 :: millis)" by simp
  have h2: "lifecycle engine0 = Initialized \<or> lifecycle engine0 = Running"
    by (simp add: engine0_def)
  have l: "lifecycle engine0 = Initialized" by (simp add: engine0_def)
  show ?thesis
    using h1 l update_pumps_then_updates_each_system [OF h1 h2, of "[]"]
    by (simp add: quit_calls_def)
qed

text \<open>
  C7. If the pump delivers a close request for the engine's own window during
  \<open>update\<close> on an initialized engine, the call returns with the quit flag set, and it
  has called \<^verbatim>\<open>update(milliSeconds)\<close> on every registered System, in order, for that
  frame.
\<close>

theorem update_survives_window_close:
  assumes "m_window s \<in> set pending"
      and "lifecycle s = Initialized \<or> lifecycle s = Running"
  shows "\<exists>s'. update milliSeconds pending s = Inr s'
           \<and> quit_requested s'
           \<and> system_updates (new_calls s s') =
               map (\<lambda>sys. (sys, milliSeconds)) (systems s)"
  using assms
  by (simp add: update_eq new_calls_def system_updates_append system_updates_map
        system_updates_quit_calls)

theorem update_survives_window_close_witness:
  "m_window engine0 \<in> set [Addr 100]
   \<and> lifecycle engine0 = Initialized
   \<and> \<not> quit_requested engine0
   \<and> (\<exists>s'. update 16 [Addr 100] engine0 = Inr s'
          \<and> quit_requested s'
          \<and> system_updates (new_calls engine0 s') =
              map (\<lambda>sys. (sys, 16)) (systems engine0))"
proof -
  have h1: "m_window engine0 \<in> set [Addr 100]" by (simp add: engine0_def)
  have h2: "lifecycle engine0 = Initialized \<or> lifecycle engine0 = Running"
    by (simp add: engine0_def)
  have l: "lifecycle engine0 = Initialized \<and> \<not> quit_requested engine0"
    by (simp add: engine0_def)
  show ?thesis
    using h1 l update_survives_window_close [OF h1 h2, of 16]
    by simp
qed

section \<open>The close listener\<close>

text \<open>
  C9. For every window pointer \<open>w\<close>, \<open>windowClosing\<close> returns true; it calls
  \<^verbatim>\<open>Game::quit\<close> exactly when \<open>w\<close> is the engine's own window \<open>m_window\<close>, which sets
  the quit flag; for any other window it leaves the whole state, the quit flag included,
  as it was.
\<close>

theorem windowClosing_quits_for_own_window_only:
  "fst (windowClosing w s)
   \<and> (GameQuit \<in> set (new_calls s (snd (windowClosing w s)))) = (w = m_window s)
   \<and> (w = m_window s \<longrightarrow> quit_requested (snd (windowClosing w s)))
   \<and> (w \<noteq> m_window s \<longrightarrow> snd (windowClosing w s) = s)"
  by (simp add: windowClosing_def Game_quit_def emit_def new_calls_def)

theorem windowClosing_quits_for_own_window_only_witness:
  "fst (windowClosing (Addr 100) engine0)
   \<and> GameQuit \<in> set (new_calls engine0 (snd (windowClosing (Addr 100) engine0)))
   \<and> quit_requested (snd (windowClosing (Addr 100) engine0))
   \<and> fst (windowClosing (Addr 7) engine0)
   \<and> GameQuit \<notin> set (new_calls engine0 (snd (windowClosing (Addr 7) engine0)))
   \<and> snd (windowClosing (Addr 7) engine0) = engine0"
proof -
  have own: "m_window engine0 = Addr 100" by (simp add: engine0_def)
  show ?thesis
    using own
      windowClosing_quits_for_own_window_only [of "Addr 100" engine0]
      windowClosing_quits_for_own_window_only [of "Addr 7" engine0]
    by (simp add: new_calls_def)
qed

section \<open>Shutdown\<close>

text \<open>
  C5. On an initialized engine with a display window, \<open>shutdown\<close> returns, and the
  calls it makes are, in this order: the teardown of the Systems, the destruction of the
  input system (no call at all if \<open>m_inputManager\<close> is null), the destruction of the
  window, and the release of the rendering root. Afterwards \<open>m_inputManager\<close> is null.
\<close>

theorem shutdown_tears_down_in_order:
  assumes "lifecycle s = Initialized \<or> lifecycle s = Running"
      and "m_window s \<noteq> Null"
  shows "\<exists>s'. shutdown env s = Inr s'
           \<and> new_calls s s' =
               map SystemShutdown
                   (if shutdown_reversed env then rev (systems s) else systems s)
                 @ (if m_inputManager s = Null then []
                    else [DestroyInputSystem (m_inputManager s)])
                 @ [WindowDestroy (m_window s)]
                 @ (if m_root s = Null then [] else [DeleteRoot (m_root s)])
           \<and> m_inputManager s' = Null
           \<and> m_root s' = Null"
  using assms
  by (auto simp: shutdown_def ok_def deref_def emit_def emit_all_def
        shutdownInputManager_def Engine_shutdown_def new_calls_def m_root_reset_def Let_def)

theorem shutdown_tears_down_in_order_witness:
  "lifecycle engine0 = Initialized
   \<and> m_window engine0 \<noteq> Null
   \<and> (\<exists>s'. shutdown env0 engine0 = Inr s'
          \<and> new_calls engine0 s' =
              map SystemShutdown (systems engine0)
                @ [DestroyInputSystem (Addr 102), WindowDestroy (Addr 100),
                   DeleteRoot (Addr 4)]
          \<and> m_inputManager s' = Null
          \<and> m_root s' = Null)"
proof -
  have h1: "lifecycle engine0 = Initialized \<or> lifecycle engine0 = Running"
    by (simp add: engine0_def)
  have h2: "m_window engine0 \<noteq> Null" by (simp add: engine0_def)
  have l: "lifecycle engine0 = Initialized \<and> m_inputManager engine0 = Addr 102
           \<and> m_window engine0 = Addr 100 \<and> m_root engine0 = Addr 4
           \<and> \<not> shutdown_reversed env0"
    by (simp add: engine0_def env0_def)
  show ?thesis
    using h2 l shutdown_tears_down_in_order [OF h1 h2, of env0]
    by simp
qed

section \<open>The lifecycle\<close>

text \<open>
  C6. A lifecycle call made out of order is fatal: it does not return, the process
  stops, and the lifecycle state is left as it was. \<open>update\<close> and \<open>shutdown\<close> outside
  Initialized and Running are turned down by the base class. \<open>init\<close> outside
  Uninitialized, a second \<open>init\<close> without a \<open>shutdown\<close> in particular, is turned down
  by the base class once its ten \<^verbatim>\<open>addSystem\<close> statements have run; if the display
  configuration cannot be resolved, the process has stopped before that, at the exit of
  \<open>loadConfig\<close>, with no \<^verbatim>\<open>addSystem\<close> call made. The only calls that return are
  the forward steps: \<open>init\<close> from Uninitialized to Initialized, \<open>update\<close> from
  Initialized or Running to Running, \<open>shutdown\<close> from Initialized or Running to
  ShutDown; over any sequence of calls the state never moves backwards.
\<close>

theorem out_of_order_lifecycle_calls:
  "(lifecycle s \<noteq> Uninitialized \<longrightarrow>
      (\<exists>s'. init env s =
               Inl (if restoreConfig_result env \<or> showConfigDialog_result env
                    then LifecycleViolation else ProcessExit EXIT_SUCCESS, s')
           \<and> lifecycle s' = lifecycle s
           \<and> map fst (added_systems (new_calls s s')) =
               (if restoreConfig_result env \<or> showConfigDialog_result env
                then [KeyboardSystem, OgreAddSceneNodeSystem, OgreUpdateSceneNodeSystem,
                      OgreCameraSystem, OgreLightSystem, SkySystem, OgreEntitySystem,
                      OgreViewportSystem, OgreRemoveSceneNodeSystem, RenderSystem]
                else [])))
   \<and> (lifecycle s \<noteq> Initialized \<and> lifecycle s \<noteq> Running \<longrightarrow>
        (\<exists>s'. update milliSeconds pending s = Inl (LifecycleViolation, s')
             \<and> lifecycle s' = lifecycle s)
        \<and> (\<exists>s'. shutdown env s = Inl (LifecycleViolation, s')
             \<and> lifecycle s' = lifecycle s))
   \<and> (\<forall>s'. init env s = Inr s' \<longrightarrow>
        lifecycle s = Uninitialized \<and> lifecycle s' = Initialized)
   \<and> (\<forall>s'. update milliSeconds pending s = Inr s' \<longrightarrow>
        (lifecycle s = Initialized \<or> lifecycle s = Running) \<and> lifecycle s' = Running)
   \<and> (\<forall>s'. shutdown env s = Inr s' \<longrightarrow>
        (lifecycle s = Initialized \<or> lifecycle s = Running) \<and> lifecycle s' = ShutDown)
   \<and> rank (lifecycle s) \<le> rank (lifecycle (state_of (run ops s)))"
proof -
  obtain t cs where a:
    "init env s =
       (if \<not> (restoreConfig_result env \<or> showConfigDialog_result env)
        then Inl (ProcessExit EXIT_SUCCESS, t)
        else if lifecycle s = Uninitialized
        then Inr (t\<lparr>calls := calls t @ map SystemInit (systems t),
                    lifecycle := Initialized\<rparr>)
        else Inl (LifecycleViolation, t))"
    "kept s t"
    "calls t = calls s @ cs"
    "map fst (added_systems cs) =
       (if restoreConfig_result env \<or> showConfigDialog_result env
        then pipeline_classes else [])"
    using init_outcome [of env s] by blast
  have p1: "lifecycle s \<noteq> Uninitialized \<longrightarrow>
      (\<exists>s'. init env s =
               Inl (if restoreConfig_result env \<or> showConfigDialog_result env
                    then LifecycleViolation else ProcessExit EXIT_SUCCESS, s')
           \<and> lifecycle s' = lifecycle s
           \<and> map fst (added_systems (new_calls s s')) =
               (if restoreConfig_result env \<or> showConfigDialog_result env
                then [KeyboardSystem, OgreAddSceneNodeSystem, OgreUpdateSceneNodeSystem,
                      OgreCameraSystem, OgreLightSystem, SkySystem, OgreEntitySystem,
                      OgreViewportSystem, OgreRemoveSceneNodeSystem, RenderSystem]
                else []))"
    using a by (auto simp: kept_def new_calls_def pipeline_classes_def)
  have p2: "lifecycle s \<noteq> Initialized \<and> lifecycle s \<noteq> Running \<longrightarrow>
        (\<exists>s'. update milliSeconds pending s = Inl (LifecycleViolation, s')
             \<and> lifecycle s' = lifecycle s)
        \<and> (\<exists>s'. shutdown env s = Inl (LifecycleViolation, s')
             \<and> lifecycle s' = lifecycle s)"
    using update_out_of_order [of s milliSeconds pending] shutdown_out_of_order [of s env]
    by auto
  have p3: "\<forall>s'. init env s = Inr s' \<longrightarrow>
        lifecycle s = Uninitialized \<and> lifecycle s' = Initialized"
    using a(1) by (auto split: if_splits)
  have p4: "\<forall>s'. update milliSeconds pending s = Inr s' \<longrightarrow>
        (lifecycle s = Initialized \<or> lifecycle s = Running) \<and> lifecycle s' = Running"
  proof (cases "lifecycle s = Initialized \<or> lifecycle s = Running")
    case True
    then show ?thesis
      using update_returns [OF True, of milliSeconds pending] by auto
  next
    case False
    then show ?thesis
      using update_out_of_order [of s milliSeconds pending] by auto
  qed
  have p5: "\<forall>s'. shutdown env s = Inr s' \<longrightarrow>
        (lifecycle s = Initialized \<or> lifecycle s = Running) \<and> lifecycle s' = ShutDown"
  proof (cases "lifecycle s = Initialized \<or> lifecycle s = Running")
    case True
    then show ?thesis
      using shutdown_in_order [OF True, of env] by (auto simp: state_of_def)
  next
    case False
    then show ?thesis
      by (simp add: shutdown_out_of_order)
  qed
  have p6: "rank (lifecycle s) \<le> rank (lifecycle (state_of (run ops s)))"
    using run_keeps [of s ops] by simp
  show ?thesis
    using p1 p2 p3 p4 p5 p6 by blast
qed

theorem out_of_order_lifecycle_calls_witness:
  "lifecycle engine0 \<noteq> Uninitialized
   \<and> rejected (init env0 engine0)
   \<and> stop_reason (init env_cancelled engine0) = Some (ProcessExit 0)
   \<and> lifecycle (OgreEngine 0) \<noteq> Initialized \<and> lifecycle (OgreEngine 0) \<noteq> Running
   \<and> rejected (update 16 [] (OgreEngine 0))
   \<and> rejected (shutdown env0 (OgreEngine 0))
   \<and> init env0 (OgreEngine 0) = Inr engine0
   \<and> lifecycle (OgreEngine 0) = Uninitialized \<and> lifecycle engine0 = Initialized
   \<and> lifecycle (state_of (update 16 [] engine0)) = Running
   \<and> lifecycle (state_of (shutdown env0 engine0)) = ShutDown
   \<and> rank (lifecycle (OgreEngine 0))
        \<le> rank (lifecycle (state_of (run [Init env0, Update 16 [], Shutdown env0]
                                     (OgreEngine 0))))"
proof -
  have l: "lifecycle engine0 = Initialized" by (simp add: engine0_def)
  have u: "lifecycle (OgreEngine 0) = Uninitialized" by (simp add: OgreEngine_def)
  have w: "m_window engine0 \<noteq> Null" by (simp add: engine0_def)
  have up: "update 16 [] engine0 = Inr (state_of (update 16 [] engine0))"
    using update_returns [of engine0 16 "[]"] l by simp
  have sd: "shutdown env0 engine0 = Inr (state_of (shutdown env0 engine0))"
    using shutdown_in_order [of engine0 env0] l w by simp
  show ?thesis
    using l u up sd init_env0
      out_of_order_lifecycle_calls [of engine0 env0 16 "[]" "[]"]
      out_of_order_lifecycle_calls [of engine0 env_cancelled 16 "[]" "[]"]
      out_of_order_lifecycle_calls
        [of "OgreEngine 0" env0 16 "[]" "[Init env0, Update 16 [], Shutdown env0]"]
    by (auto simp: rejected_def stop_reason_def env0_fields env_cancelled_fields
          EXIT_SUCCESS_def)
qed

section \<open>The accessors\<close>

text \<open>
  C10. At every point of an engine's life, that is after any sequence of \<open>init\<close>,
  \<open>update\<close>, \<open>shutdown\<close> and close notifications on the engine built at address
  \<open>a\<close>, \<open>keyboardSystem\<close> and \<open>viewportSystem\<close> return the two objects that the
  constructor created, which are not null. As long as \<open>init\<close> has not been called,
  \<open>inputManager\<close>, \<open>root\<close>, \<open>sceneManager\<close> and \<open>window\<close> return null. After a
  \<open>shutdown\<close> that has returned, \<open>inputManager\<close> and \<open>root\<close> return null.
\<close>

theorem accessors_over_lifetime:
  "keyboardSystem (state_of (run ops (OgreEngine a))) = Addr (a + 1)
   \<and> viewportSystem (state_of (run ops (OgreEngine a))) = Addr (a + 2)
   \<and> keyboardSystem (state_of (run ops (OgreEngine a))) \<noteq> Null
   \<and> viewportSystem (state_of (run ops (OgreEngine a))) \<noteq> Null
   \<and> ((\<forall>x \<in> set ops. \<not> is_Init x) \<longrightarrow>
        inputManager (state_of (run ops (OgreEngine a))) = Null
        \<and> root_accessor (state_of (run ops (OgreEngine a))) = Null
        \<and> sceneManager (state_of (run ops (OgreEngine a))) = Null
        \<and> window (state_of (run ops (OgreEngine a))) = Null)
   \<and> (\<forall>s'. shutdown env s = Inr s' \<longrightarrow> inputManager s' = Null \<and> root_accessor s' = Null)"
proof -
  have k: "m_keyboardSystem (state_of (run ops (OgreEngine a))) = Addr (a + 1)
           \<and> m_viewportSystem (state_of (run ops (OgreEngine a))) = Addr (a + 2)"
    using run_keeps [of "OgreEngine a" ops] by (simp add: OgreEngine_def)
  have n: "(\<forall>x \<in> set ops. \<not> is_Init x) \<longrightarrow>
        m_inputManager (state_of (run ops (OgreEngine a))) = Null
        \<and> m_root (state_of (run ops (OgreEngine a))) = Null
        \<and> m_sceneManager (state_of (run ops (OgreEngine a))) = Null
        \<and> m_window (state_of (run ops (OgreEngine a))) = Null"
    using run_keeps_null [of ops "OgreEngine a"] by (simp add: OgreEngine_def)
  have s: "\<forall>s'. shutdown env s = Inr s' \<longrightarrow> m_inputManager s' = Null \<and> m_root s' = Null"
  proof (cases "lifecycle s = Initialized \<or> lifecycle s = Running")
    case True
    then show ?thesis
      using shutdown_in_order [OF True, of env]
      by (cases "m_window s = Null")
         (auto simp: state_of_def shutdown_def ok_def deref_def Engine_shutdown_def
            shutdownInputManager_def emit_def emit_all_def)
  next
    case False
    then show ?thesis by (simp add: shutdown_out_of_order)
  qed
  show ?thesis
    using k n s
    by (simp add: keyboardSystem_def viewportSystem_def inputManager_def root_accessor_def
          sceneManager_def window_def)
qed

theorem accessors_over_lifetime_witness:
  "keyboardSystem (state_of (run [Init env0, Update 16 [Addr 100], Shutdown env0]
                               (OgreEngine 0))) = Addr 1
   \<and> viewportSystem (state_of (run [Init env0, Update 16 [Addr 100], Shutdown env0]
                                 (OgreEngine 0))) = Addr 2
   \<and> \<not> is_Init (WindowClosing Null) \<and> \<not> is_Init (Update 16 [])
   \<and> inputManager (state_of (run [WindowClosing Null, Update 16 []] (OgreEngine 0))) = Null
   \<and> root_accessor (state_of (run [WindowClosing Null, Update 16 []] (OgreEngine 0))) = Null
   \<and> sceneManager (state_of (run [WindowClosing Null, Update 16 []] (OgreEngine 0))) = Null
   \<and> window (state_of (run [WindowClosing Null, Update 16 []] (OgreEngine 0))) = Null
   \<and> shutdown env0 engine0 = Inr (state_of (shutdown env0 engine0))
   \<and> inputManager engine0 = Addr 102 \<and> root_accessor engine0 = Addr 4
   \<and> inputManager (state_of (shutdown env0 engine0)) = Null
   \<and> root_accessor (state_of (shutdown env0 engine0)) = Null"
proof -
  have l: "lifecycle engine0 = Initialized" by (simp add: engine0_def)
  have w: "m_window engine0 \<noteq> Null" by (simp add: engine0_def)
  have sd: "shutdown env0 engine0 = Inr (state_of (shutdown env0 engine0))"
    using shutdown_in_order [of engine0 env0] l w by simp
  have h: "\<forall>x \<in> set [WindowClosing Null, Update 16 []]. \<not> is_Init x" by simp
  have e: "inputManager engine0 = Addr 102 \<and> root_accessor engine0 = Addr 4"
    by (simp add: inputManager_def root_accessor_def engine0_def)
  show ?thesis
    using sd h e
      accessors_over_lifetime
        [of "[Init env0, Update 16 [Addr 100], Shutdown env0]" 0 env0 engine0]
      accessors_over_lifetime [of "[WindowClosing Null, Update 16 []]" 0 env0 engine0]
    by simp
qed

section \<open>Resource locations\<close>

text \<open>
  C8, as the code has it. For every entry (section, type, location) of the manifest
  \<open>loadResources\<close> makes exactly one call
  \<^verbatim>\<open>addResourceLocation(location, type, section)\<close>. The calls come in the order in
  which the two loops walk the loaded configuration, and that is the order of its
  containers, not the order of the file: sections by ascending name, the settings of a
  section by ascending type, settings of equal section and type in the order of the
  file. In one formula, the entries of the file sorted stably by section and type.
\<close>

theorem loadResources_registers_each_entry_once:
  "registered_locations (new_calls s (loadResources env s)) =
     registrations (ConfigFile_load (resources_file env))
   \<and> mset (registered_locations (new_calls s (loadResources env s))) =
       mset (entries_in_file_order (resources_file env))
   \<and> registered_locations (new_calls s (loadResources env s)) =
       sort_key by_section_and_type (entries_in_file_order (resources_file env))"
proof -
  have "registered_locations (new_calls s (loadResources env s)) =
          registrations (ConfigFile_load (resources_file env))"
    by (simp add: loadResources_emit emit_all_def new_calls_def
          registered_locations_resource_calls)
  then show ?thesis
    using ConfigFile_load_properties(1) [of "resources_file env"]
      registrations_sorted_file [of "resources_file env"]
    by simp
qed

text \<open>
  C8, as stated, fails for a manifest that lists a Zip archive before a directory in
  one section: the directory is registered first.
\<close>

theorem registration_order_is_not_file_order:
  "entries_in_file_order (resources_file env0) =
     [(''b.zip'', ''Zip'', ''General''), (''media'', ''FileSystem'', ''General'')]
   \<and> registered_locations (new_calls (OgreEngine 0) (loadResources env0 (OgreEngine 0))) =
       [(''media'', ''FileSystem'', ''General''), (''b.zip'', ''Zip'', ''General'')]
   \<and> registered_locations (new_calls (OgreEngine 0) (loadResources env0 (OgreEngine 0)))
       \<noteq> entries_in_file_order (resources_file env0)"
proof -
  have f: "entries_in_file_order (resources_file env0) =
     [(''b.zip'', ''Zip'', ''General''), (''media'', ''FileSystem'', ''General'')]"
    by (simp add: entries_in_file_order_def env0_def)
  have r: "registered_locations (new_calls (OgreEngine 0) (loadResources env0 (OgreEngine 0)))
      = [(''media'', ''FileSystem'', ''General''), (''b.zip'', ''Zip'', ''General'')]"
    by (simp add: loadResources_emit emit_all_def new_calls_def ConfigFile_load_env0
          resource_calls_def registrations_def)
  show ?thesis
    unfolding f r by simp
qed

end
